theory Spec2Isabelle
  imports Complex_Main
begin

section \<open>FullDuplexHfpLoopback: a shallow embedding\<close>

text \<open>
  The class \<^verbatim>\<open>FullDuplexHfpLoopback\<close> (FullDuplexHfpLoopback.h and .cpp of OboeTester)
  plays a loaded clip into the output stream, records what it plays and what it captures,
  and keeps a peak detector per input channel.

  Conventions of the embedding:
  \<^item> the members of the class are the fields of a record, under their own names; a member
    function takes the object and returns the updated object;
  \<^item> \<^verbatim>\<open>int32_t\<close>, \<^verbatim>\<open>int64_t\<close> and \<^verbatim>\<open>int\<close> values are \<open>int\<close>. Where C++ gives a call no
    meaning the model returns \<open>None\<close>: the product \<^verbatim>\<open>numFrames * channelCount\<close> of
    \<^verbatim>\<open>loadAudioData\<close> outside the \<^verbatim>\<open>int32_t\<close> range, an index outside a buffer, a null
    or too short array of detectors, a negative size given to \<^verbatim>\<open>memset\<close>, a zero divisor, a
    negative array length. The blocks of a callback are buffers of the audio layer, and
    the number of samples of a block is taken to fit \<^verbatim>\<open>int32_t\<close>; the two 64-bit frame
    counters are incremented once per frame and are taken not to reach \<open>2 ^ 63\<close>;
  \<^item> \<^verbatim>\<open>float\<close> samples are \<open>real\<close>: the playback path only copies samples and writes
    zeros, so no rounding is involved there;
  \<^item> a \<^verbatim>\<open>const float *\<close> argument is the memory it points to, a function from the
    offset (in samples) to the sample; the nullable argument of \<^verbatim>\<open>loadAudioData\<close> is
    an \<open>option\<close> of it;
  \<^item> the output block of a callback is returned as the list of the frames written, in
    order; the block in memory is their concatenation;
  \<^item> the stream properties the class reads through \<^verbatim>\<open>getOutputStream()\<close> and
    \<^verbatim>\<open>getInputStream()\<close> are a record passed to the functions that read them.
\<close>

type_synonym frame = "real list"

type_synonym float_ptr = "nat \<Rightarrow> real"

record StreamProperties =
  outputSampleRate :: int
  outputChannelCount :: int
  inputSampleRate :: int
  inputChannelCount :: int

definition INT32_MAX :: int where
  "INT32_MAX = 2147483647"

definition SECONDS_TO_RECORD_HFP :: int where
  "SECONDS_TO_RECORD_HFP = 300"

subsection \<open>Collaborators whose sources are outside this fragment\<close>

text \<open>
  Modelled from the spec: \<^verbatim>\<open>PeakDetector\<close> (analyzer/PeakDetector.h is not part of the
  sources at hand). The spec gives a detector a non-negative \<open>level\<close> that each new
  sample either replaces by its absolute value, when that is larger, or decays
  multiplicatively toward 0. The decay factor is an implementation choice, so it is a
  parameter here. A new detector has seen no sample and has level 0.
\<close>

record PeakDetector =
  level :: real

definition PeakDetector_new :: PeakDetector where
  "PeakDetector_new = \<lparr>level = 0\<rparr>"

definition process :: "real \<Rightarrow> real \<Rightarrow> PeakDetector \<Rightarrow> PeakDetector" where
  "process decay sample d =
     (if \<bar>sample\<bar> > level d then d\<lparr>level := \<bar>sample\<bar>\<rparr>
      else d\<lparr>level := level d * decay\<rparr>)"

definition getLevel :: "PeakDetector \<Rightarrow> real" where
  "getLevel d = level d"

text \<open>
  Modelled from the spec: \<^verbatim>\<open>MultiChannelRecording\<close> (MultiChannelRecording.h is not part
  of the sources at hand). The spec gives a recording a channel count and a capacity in
  frames, both fixed at creation, and an append operation. The model keeps the frames
  appended so far, oldest first; what a full recording retains of them is a policy the
  spec leaves open, and nothing below depends on it. \<^verbatim>\<open>write(p, 1)\<close> appends the one
  frame at \<open>p\<close>; the recordings are created in \<^verbatim>\<open>start()\<close> with the channel counts of
  the streams, so that frame is the stream's frame.
\<close>

record MultiChannelRecording =
  recChannelCount :: int
  recMaxFrames :: int
  recFrames :: "frame list"

definition MultiChannelRecording_new :: "int \<Rightarrow> int \<Rightarrow> MultiChannelRecording" where
  "MultiChannelRecording_new channelCount maxFrames =
     \<lparr>recChannelCount = channelCount, recMaxFrames = maxFrames, recFrames = []\<rparr>"

definition write_rec :: "frame \<Rightarrow> MultiChannelRecording \<Rightarrow> MultiChannelRecording" where
  "write_rec fr r = r\<lparr>recFrames := recFrames r @ [fr]\<rparr>"

datatype DataCallbackResult = Continue | Stop

subsection \<open>The object\<close>

record FullDuplexHfpLoopback =
  mPlaybackBuffer :: "real list"
  mPlaybackPosition :: int
  mPlaybackNumFrames :: int
  mPlaybackChannelCount :: int
  mPlaybackSampleRate :: int
  mLoopPlayback :: bool
  mPlayedFrameCount :: int
  mRecordedFrameCount :: int
  mPlayedRecording :: "MultiChannelRecording option"
  mRecordedRecording :: "MultiChannelRecording option"
  mNumInputChannels :: int
  mPeakDetectors :: "PeakDetector list option"

text \<open>The constructor: the default member initialisers of the header.\<close>

definition FullDuplexHfpLoopback_new :: FullDuplexHfpLoopback where
  "FullDuplexHfpLoopback_new =
     \<lparr>mPlaybackBuffer = [],
      mPlaybackPosition = 0,
      mPlaybackNumFrames = 0,
      mPlaybackChannelCount = 1,
      mPlaybackSampleRate = 48000,
      mLoopPlayback = True,
      mPlayedFrameCount = 0,
      mRecordedFrameCount = 0,
      mPlayedRecording = None,
      mRecordedRecording = None,
      mNumInputChannels = 0,
      mPeakDetectors = None\<rparr>"

definition setLoopPlayback :: "bool \<Rightarrow> FullDuplexHfpLoopback \<Rightarrow> FullDuplexHfpLoopback" where
  "setLoopPlayback loop s = s\<lparr>mLoopPlayback := loop\<rparr>"

definition getPlayedFrameCount :: "FullDuplexHfpLoopback \<Rightarrow> int" where
  "getPlayedFrameCount s = mPlayedFrameCount s"

definition getRecordedFrameCount :: "FullDuplexHfpLoopback \<Rightarrow> int" where
  "getRecordedFrameCount s = mRecordedFrameCount s"

text \<open>
  \<^verbatim>\<open>start()\<close>. The array of detectors is allocated with the input channel count as its
  length; a negative length makes the allocation throw, which is \<open>None\<close>. The value
  returned is the one of the base class's \<^verbatim>\<open>start()\<close>, which is outside this fragment.
\<close>

definition start :: "StreamProperties \<Rightarrow> FullDuplexHfpLoopback \<Rightarrow> FullDuplexHfpLoopback option" where
  "start cfg s =
     (if inputChannelCount cfg < 0 then None
      else Some (s\<lparr>mPlaybackPosition := 0,
                   mPlayedFrameCount := 0,
                   mRecordedFrameCount := 0,
                   mPlayedRecording := Some (MultiChannelRecording_new (outputChannelCount cfg)
                       (SECONDS_TO_RECORD_HFP * outputSampleRate cfg)),
                   mRecordedRecording := Some (MultiChannelRecording_new (inputChannelCount cfg)
                       (SECONDS_TO_RECORD_HFP * inputSampleRate cfg)),
                   mNumInputChannels := inputChannelCount cfg,
                   mPeakDetectors := Some (replicate (nat (inputChannelCount cfg)) PeakDetector_new)\<rparr>))"

text \<open>
  \<^verbatim>\<open>getPeakLevel(index)\<close>: \<open>-1\<close> before \<^verbatim>\<open>start()\<close>, \<open>-2\<close> for an index out of range.
\<close>

definition getPeakLevel :: "FullDuplexHfpLoopback \<Rightarrow> int \<Rightarrow> real option" where
  "getPeakLevel s index =
     (case mPeakDetectors s of
        None \<Rightarrow> Some (- 1)
      | Some ds \<Rightarrow>
          if index < 0 \<or> index \<ge> mNumInputChannels s then Some (- 2)
          else if nat index < length ds then Some (getLevel (ds ! nat index))
          else None)"

text \<open>
  \<^verbatim>\<open>loadAudioData\<close>. The result is the return code and the object. The product
  \<^verbatim>\<open>numFrames * channelCount\<close> is computed in \<^verbatim>\<open>int32_t\<close>; beyond \<open>INT32_MAX\<close> the signed
  multiplication overflows, which is \<open>None\<close>. The buffer is resized to the product and
  that many samples are copied from the memory at \<open>audioData\<close>.
\<close>

definition loadAudioData ::
  "float_ptr option \<Rightarrow> int \<Rightarrow> int \<Rightarrow> int \<Rightarrow> FullDuplexHfpLoopback
     \<Rightarrow> (int \<times> FullDuplexHfpLoopback) option" where
  "loadAudioData audioData numFrames channelCount sampleRate s =
     (if audioData = None \<or> numFrames \<le> 0 \<or> channelCount \<le> 0 then Some (- 1, s)
      else
        (let totalSamples = numFrames * channelCount in
         if totalSamples > INT32_MAX then None
         else Some (0, s\<lparr>mPlaybackBuffer := map (the audioData) [0..<nat totalSamples],
                          mPlaybackNumFrames := numFrames,
                          mPlaybackChannelCount := channelCount,
                          mPlaybackSampleRate := sampleRate,
                          mPlaybackPosition := 0\<rparr>)))"

subsection \<open>The callback: playback\<close>

text \<open>
  \<^verbatim>\<open>memset\<close> of \<open>n\<close> frames of \<open>outCh\<close> samples to zero. A negative product is no size,
  and two negative counts describe no block.
\<close>

definition memsetFrames :: "int \<Rightarrow> int \<Rightarrow> frame list option" where
  "memsetFrames outCh n =
     (if n * outCh < 0 \<or> (n < 0 \<and> outCh < 0) then None
      else Some (replicate (nat n) (replicate (nat outCh) 0)))"

text \<open>\<^verbatim>\<open>mPlaybackBuffer[i]\<close>: defined for an index inside the vector only.\<close>

definition readSample :: "real list \<Rightarrow> int \<Rightarrow> real option" where
  "readSample buf i = (if 0 \<le> i \<and> i < int (length buf) then Some (buf ! nat i) else None)"

text \<open>
  \<^verbatim>\<open>ch % mPlaybackChannelCount\<close> for \<open>ch \<ge> 0\<close>: C++ truncates, so the remainder of a
  non-negative \<open>ch\<close> is taken by the absolute value of the divisor; a zero divisor has no
  meaning.
\<close>

definition srcChannelOf :: "int \<Rightarrow> int \<Rightarrow> int option" where
  "srcChannelOf ch channels = (if channels = 0 then None else Some (ch mod \<bar>channels\<bar>))"

text \<open>The inner \<^verbatim>\<open>for\<close> loop: one output frame, read at the cursor.\<close>

definition copyFrame :: "FullDuplexHfpLoopback \<Rightarrow> int \<Rightarrow> frame option" where
  "copyFrame s outCh =
     (let srcOffset = mPlaybackPosition s * mPlaybackChannelCount s in
      those (map (\<lambda>ch. case srcChannelOf (int ch) (mPlaybackChannelCount s) of
                          None \<Rightarrow> None
                        | Some srcChannel \<Rightarrow> readSample (mPlaybackBuffer s) (srcOffset + srcChannel))
                 [0..<nat outCh]))"

text \<open>
  The \<^verbatim>\<open>while (framesWritten < numOutputFrames)\<close> loop. \<open>out\<close> holds the frames written
  so far. At the end of the clip the cursor wraps when looping is on; otherwise the rest
  of the block is zeroed and the loop is left.
\<close>

function playbackLoop ::
  "int \<Rightarrow> int \<Rightarrow> int \<Rightarrow> FullDuplexHfpLoopback \<Rightarrow> frame list
     \<Rightarrow> (FullDuplexHfpLoopback \<times> frame list) option" where
  "playbackLoop outCh numOutputFrames framesWritten s out =
     (if framesWritten < numOutputFrames then
        (if mPlaybackPosition s \<ge> mPlaybackNumFrames s \<and> \<not> mLoopPlayback s then
           (case memsetFrames outCh (numOutputFrames - framesWritten) of
              None \<Rightarrow> None
            | Some z \<Rightarrow> Some (s, out @ z))
         else
           (let s1 = (if mPlaybackPosition s \<ge> mPlaybackNumFrames s
                      then s\<lparr>mPlaybackPosition := 0\<rparr> else s)
            in case copyFrame s1 outCh of
                 None \<Rightarrow> None
               | Some fr \<Rightarrow>
                   playbackLoop outCh numOutputFrames (framesWritten + 1)
                     (s1\<lparr>mPlayedRecording := map_option (write_rec fr) (mPlayedRecording s1),
                         mPlaybackPosition := mPlaybackPosition s1 + 1,
                         mPlayedFrameCount := mPlayedFrameCount s1 + 1\<rparr>)
                     (out @ [fr])))
      else Some (s, out))"
  by pat_completeness auto
termination
  by (relation "measure (\<lambda>(outCh, numOutputFrames, framesWritten, s, out).
        nat (numOutputFrames - framesWritten))") auto

definition processOutput ::
  "StreamProperties \<Rightarrow> int \<Rightarrow> FullDuplexHfpLoopback
     \<Rightarrow> (FullDuplexHfpLoopback \<times> frame list) option" where
  "processOutput cfg numOutputFrames s =
     (if mPlaybackBuffer s = [] \<or> mPlaybackNumFrames s = 0 then
        (case memsetFrames (outputChannelCount cfg) numOutputFrames of
           None \<Rightarrow> None
         | Some z \<Rightarrow> Some (s, z))
      else playbackLoop (outputChannelCount cfg) numOutputFrames 0 s [])"

subsection \<open>The callback: capture\<close>

definition readFrame :: "float_ptr \<Rightarrow> int \<Rightarrow> int \<Rightarrow> frame" where
  "readFrame p offset channels = map (\<lambda>ch. p (nat (offset + int ch))) [0..<nat channels]"

text \<open>
  The loop over the channels of one input frame:
  \<^verbatim>\<open>for (ch = 0; ch < inputChannelCount && ch < mNumInputChannels; ch++)\<close>.
\<close>

definition updatePeakDetectors ::
  "real \<Rightarrow> int \<Rightarrow> frame \<Rightarrow> FullDuplexHfpLoopback \<Rightarrow> FullDuplexHfpLoopback option" where
  "updatePeakDetectors decay inCh fr s =
     (let n = nat (min inCh (mNumInputChannels s)) in
      if n = 0 then Some s
      else
        (case mPeakDetectors s of
           None \<Rightarrow> None
         | Some ds \<Rightarrow>
             if length ds < n then None
             else Some (s\<lparr>mPeakDetectors :=
                    Some (fold (\<lambda>ch ds'. ds'[ch := process decay (fr ! ch) (ds' ! ch)]) [0..<n] ds)\<rparr>)))"

function inputLoop ::
  "real \<Rightarrow> int \<Rightarrow> float_ptr \<Rightarrow> int \<Rightarrow> int \<Rightarrow> FullDuplexHfpLoopback
     \<Rightarrow> FullDuplexHfpLoopback option" where
  "inputLoop decay inCh inputData numInputFrames i s =
     (if i < numInputFrames then
        (let fr = readFrame inputData (i * inCh) inCh;
             s1 = s\<lparr>mRecordedRecording := map_option (write_rec fr) (mRecordedRecording s)\<rparr>
         in case updatePeakDetectors decay inCh fr s1 of
              None \<Rightarrow> None
            | Some s2 \<Rightarrow>
                inputLoop decay inCh inputData numInputFrames (i + 1)
                  (s2\<lparr>mRecordedFrameCount := mRecordedFrameCount s2 + 1\<rparr>))
      else Some s)"
  by pat_completeness auto
termination
  by (relation "measure (\<lambda>(decay, inCh, inputData, numInputFrames, i, s).
        nat (numInputFrames - i))") auto

subsection \<open>The callback\<close>

definition onBothStreamsReadyFloat ::
  "real \<Rightarrow> StreamProperties \<Rightarrow> float_ptr \<Rightarrow> int \<Rightarrow> int \<Rightarrow> FullDuplexHfpLoopback
     \<Rightarrow> (DataCallbackResult \<times> FullDuplexHfpLoopback \<times> frame list) option" where
  "onBothStreamsReadyFloat decay cfg inputData numInputFrames numOutputFrames s =
     (case processOutput cfg numOutputFrames s of
        None \<Rightarrow> None
      | Some (s1, out) \<Rightarrow>
          (case inputLoop decay (inputChannelCount cfg) inputData numInputFrames 0 s1 of
             None \<Rightarrow> None
           | Some s2 \<Rightarrow> Some (Continue, s2, out)))"


subsection \<open>Sequences of calls\<close>

text \<open>
  The control thread calls \<^verbatim>\<open>start\<close>, \<^verbatim>\<open>loadAudioData\<close> and \<^verbatim>\<open>setLoopPlayback\<close>; the
  audio thread calls the callback. A run is a list of such calls on one object, with the
  streams' properties fixed; its output is the concatenation of the blocks the callbacks
  wrote. \<open>callbacks\<close> is a run of callbacks alone, given by the input block, the number
  of input frames and the number of output frames of each.
\<close>

datatype call =
    Start
  | LoadAudioData "float_ptr option" int int int
  | SetLoopPlayback bool
  | OnBothStreamsReady float_ptr int int

fun exec ::
  "real \<Rightarrow> StreamProperties \<Rightarrow> call \<Rightarrow> FullDuplexHfpLoopback
     \<Rightarrow> (FullDuplexHfpLoopback \<times> frame list) option" where
  "exec decay cfg Start s =
     (case start cfg s of None \<Rightarrow> None | Some s' \<Rightarrow> Some (s', []))"
| "exec decay cfg (LoadAudioData audioData numFrames channelCount sampleRate) s =
     (case loadAudioData audioData numFrames channelCount sampleRate s of
        None \<Rightarrow> None
      | Some (rc, s') \<Rightarrow> Some (s', []))"
| "exec decay cfg (SetLoopPlayback loop) s = Some (setLoopPlayback loop s, [])"
| "exec decay cfg (OnBothStreamsReady inputData numInputFrames numOutputFrames) s =
     (case onBothStreamsReadyFloat decay cfg inputData numInputFrames numOutputFrames s of
        None \<Rightarrow> None
      | Some (r, s', out) \<Rightarrow> Some (s', out))"

fun execAll ::
  "real \<Rightarrow> StreamProperties \<Rightarrow> call list \<Rightarrow> FullDuplexHfpLoopback
     \<Rightarrow> (FullDuplexHfpLoopback \<times> frame list) option" where
  "execAll decay cfg [] s = Some (s, [])"
| "execAll decay cfg (c # cs) s =
     (case exec decay cfg c s of
        None \<Rightarrow> None
      | Some (s1, out) \<Rightarrow>
          (case execAll decay cfg cs s1 of
             None \<Rightarrow> None
           | Some (s2, outs) \<Rightarrow> Some (s2, out @ outs)))"

fun callbacks :: "(float_ptr \<times> int \<times> int) list \<Rightarrow> call list" where
  "callbacks [] = []"
| "callbacks ((inputData, numInputFrames, numOutputFrames) # rs) =
     OnBothStreamsReady inputData numInputFrames numOutputFrames # callbacks rs"

fun inputTotal :: "(float_ptr \<times> int \<times> int) list \<Rightarrow> int" where
  "inputTotal [] = 0"
| "inputTotal ((inputData, numInputFrames, numOutputFrames) # rs) = numInputFrames + inputTotal rs"

fun outputTotal :: "(float_ptr \<times> int \<times> int) list \<Rightarrow> int" where
  "outputTotal [] = 0"
| "outputTotal ((inputData, numInputFrames, numOutputFrames) # rs) = numOutputFrames + outputTotal rs"

fun requestsOk :: "(float_ptr \<times> int \<times> int) list \<Rightarrow> bool" where
  "requestsOk [] = True"
| "requestsOk ((inputData, numInputFrames, numOutputFrames) # rs) =
     (0 \<le> numInputFrames \<and> 0 \<le> numOutputFrames \<and> requestsOk rs)"


subsection \<open>Invariants and closed forms\<close>

text \<open>
  The definitions of this subsection are not part of the program: they state what holds
  of the object between calls, and what a request computes, in closed form.

  \<open>clipOk\<close>: the buffer holds \<^verbatim>\<open>mPlaybackNumFrames * mPlaybackChannelCount\<close> samples and
  the cursor is inside \<open>[0, mPlaybackNumFrames]\<close>. \<open>detectorsOk\<close>: there are
  \<^verbatim>\<open>mNumInputChannels\<close> detectors. \<open>levelsOk\<close>: no level is negative.
\<close>

definition clipOk :: "FullDuplexHfpLoopback \<Rightarrow> bool" where
  "clipOk s \<longleftrightarrow>
     0 < mPlaybackChannelCount s \<and> 0 \<le> mPlaybackNumFrames s \<and>
     int (length (mPlaybackBuffer s)) = mPlaybackNumFrames s * mPlaybackChannelCount s \<and>
     mPlaybackNumFrames s * mPlaybackChannelCount s \<le> INT32_MAX \<and>
     0 \<le> mPlaybackPosition s \<and> mPlaybackPosition s \<le> mPlaybackNumFrames s"

definition detectorsOk :: "FullDuplexHfpLoopback \<Rightarrow> bool" where
  "detectorsOk s \<longleftrightarrow>
     (case mPeakDetectors s of
        None \<Rightarrow> mNumInputChannels s = 0
      | Some ds \<Rightarrow> int (length ds) = mNumInputChannels s)"

definition levelsOk :: "FullDuplexHfpLoopback \<Rightarrow> bool" where
  "levelsOk s \<longleftrightarrow>
     (case mPeakDetectors s of
        None \<Rightarrow> True
      | Some ds \<Rightarrow> list_all (\<lambda>d. 0 \<le> getLevel d) ds)"


text \<open>
  The channel rule in the spec's words: destination channel \<open>c\<close> of the frame read at
  clip position \<open>p\<close> is source channel \<open>c mod channels\<close> of that frame.
\<close>

definition specFrame :: "real list \<Rightarrow> int \<Rightarrow> int \<Rightarrow> int \<Rightarrow> frame" where
  "specFrame buf channels outCh p =
     map (\<lambda>c. buf ! nat (p * channels + int c mod channels)) [0..<nat outCh]"

definition appendFrames :: "frame list \<Rightarrow> MultiChannelRecording option \<Rightarrow> MultiChannelRecording option" where
  "appendFrames fs = map_option (\<lambda>r. r\<lparr>recFrames := recFrames r @ fs\<rparr>)"


text \<open>
  One request of \<open>n\<close> output frames: \<open>copied\<close> is the number of frames it copies from the
  clip, \<open>cursorAt s j\<close> the clip position its \<open>j\<close>-th copied frame is read at,
  \<open>clipFrames\<close> the frames copied and \<open>cursorAfter\<close> the cursor it leaves.
\<close>

definition copied :: "FullDuplexHfpLoopback \<Rightarrow> int \<Rightarrow> nat" where
  "copied s n =
     (if mPlaybackBuffer s = [] \<or> mPlaybackNumFrames s = 0 then 0
      else if mLoopPlayback s then nat n
      else min (nat n) (nat (mPlaybackNumFrames s - mPlaybackPosition s)))"

definition cursorAt :: "FullDuplexHfpLoopback \<Rightarrow> nat \<Rightarrow> int" where
  "cursorAt s j =
     (if mLoopPlayback s then (mPlaybackPosition s + int j) mod mPlaybackNumFrames s
      else mPlaybackPosition s + int j)"

definition clipFrames :: "FullDuplexHfpLoopback \<Rightarrow> int \<Rightarrow> nat \<Rightarrow> frame list" where
  "clipFrames s outCh c =
     map (\<lambda>j. specFrame (mPlaybackBuffer s) (mPlaybackChannelCount s) outCh (cursorAt s j)) [0..<c]"

definition cursorAfter :: "FullDuplexHfpLoopback \<Rightarrow> nat \<Rightarrow> int" where
  "cursorAfter s c = (if c = 0 then mPlaybackPosition s else cursorAt s (c - 1) + 1)"


text \<open>What a callback of \<open>m\<close> input frames and \<open>n\<close> output frames leaves, in these terms.\<close>

definition callbackPost ::
  "StreamProperties \<Rightarrow> real \<Rightarrow> FullDuplexHfpLoopback \<Rightarrow> int \<Rightarrow> int
     \<Rightarrow> FullDuplexHfpLoopback \<Rightarrow> frame list \<Rightarrow> bool" where
  "callbackPost cfg decay s m n s' out \<longleftrightarrow>
     out = clipFrames s (outputChannelCount cfg) (copied s n)
             @ replicate (nat n - copied s n) (replicate (nat (outputChannelCount cfg)) 0) \<and>
     mPlaybackBuffer s' = mPlaybackBuffer s \<and>
     mPlaybackNumFrames s' = mPlaybackNumFrames s \<and>
     mPlaybackChannelCount s' = mPlaybackChannelCount s \<and>
     mPlaybackSampleRate s' = mPlaybackSampleRate s \<and>
     mLoopPlayback s' = mLoopPlayback s \<and>
     mPlaybackPosition s' = cursorAfter s (copied s n) \<and>
     mPlayedFrameCount s' = mPlayedFrameCount s + int (copied s n) \<and>
     mPlayedRecording s' =
       appendFrames (clipFrames s (outputChannelCount cfg) (copied s n)) (mPlayedRecording s) \<and>
     mRecordedFrameCount s' = mRecordedFrameCount s + m \<and>
     mNumInputChannels s' = mNumInputChannels s \<and>
     (mPeakDetectors s' = None) = (mPeakDetectors s = None) \<and>
     clipOk s' \<and> detectorsOk s' \<and>
     (0 \<le> decay \<longrightarrow> levelsOk s \<longrightarrow> levelsOk s')"


text \<open>
  The calls of a run are taken inside the domain where C++ gives them a meaning
  (\<open>callOk\<close>): a callback is asked for a non-negative number of output frames, and the
  sample count of a clip fits \<^verbatim>\<open>int32_t\<close>. \<open>sessionOk\<close> is what holds of the object
  between the calls of a run on the streams \<open>cfg\<close>; \<open>started\<close> says that \<^verbatim>\<open>start()\<close> has
  allocated the detectors.
\<close>

fun callOk :: "call \<Rightarrow> bool" where
  "callOk Start = True"
| "callOk (LoadAudioData audioData numFrames channelCount sampleRate) =
     (audioData = None \<or> numFrames \<le> 0 \<or> channelCount \<le> 0
        \<or> numFrames * channelCount \<le> INT32_MAX)"
| "callOk (SetLoopPlayback loop) = True"
| "callOk (OnBothStreamsReady inputData numInputFrames numOutputFrames) = (0 \<le> numOutputFrames)"

fun isSetLoopPlayback :: "call \<Rightarrow> bool" where
  "isSetLoopPlayback (SetLoopPlayback loop) = True"
| "isSetLoopPlayback c = False"

definition started :: "FullDuplexHfpLoopback \<Rightarrow> bool" where
  "started s \<longleftrightarrow> mPeakDetectors s \<noteq> None"

definition sessionOk :: "StreamProperties \<Rightarrow> FullDuplexHfpLoopback \<Rightarrow> bool" where
  "sessionOk cfg s \<longleftrightarrow>
     clipOk s \<and> detectorsOk s \<and> (started s \<longrightarrow> mNumInputChannels s = inputChannelCount cfg)"


subsection \<open>Concrete inputs\<close>

text \<open>A session of two channels at 48000 Hz in both directions, and an all-zero input block.\<close>

definition stereo48k :: StreamProperties where
  "stereo48k = \<lparr>outputSampleRate = 48000, outputChannelCount = 2,
                 inputSampleRate = 48000, inputChannelCount = 2\<rparr>"

definition silentInput :: float_ptr where
  "silentInput i = 0"

text \<open>A clip of three mono frames with looping switched off, not started.\<close>

definition shortClip :: FullDuplexHfpLoopback where
  "shortClip = FullDuplexHfpLoopback_new
     \<lparr>mPlaybackBuffer := [1 / 4, 1 / 2, 3 / 4], mPlaybackNumFrames := 3, mLoopPlayback := False\<rparr>"

text \<open>The object \<^verbatim>\<open>start()\<close> makes of a new one on the \<open>stereo48k\<close> session.\<close>

definition startedSession :: FullDuplexHfpLoopback where
  "startedSession = FullDuplexHfpLoopback_new
     \<lparr>mPlayedRecording := Some (MultiChannelRecording_new 2 14400000),
      mRecordedRecording := Some (MultiChannelRecording_new 2 14400000),
      mNumInputChannels := 2,
      mPeakDetectors := Some [PeakDetector_new, PeakDetector_new]\<rparr>"

text \<open>The clip of two mono frames that \<^verbatim>\<open>loadAudioData(halfSamples, 2, 1, 48000)\<close> loads.\<close>

definition halfSamples :: float_ptr where
  "halfSamples i = 1 / 2"

definition twoFrameClip :: FullDuplexHfpLoopback where
  "twoFrameClip = FullDuplexHfpLoopback_new
     \<lparr>mPlaybackBuffer := [1 / 2, 1 / 2], mPlaybackNumFrames := 2\<rparr>"

text \<open>
  The started session with the two-frame clip loaded, and the object one callback of two
  output frames makes of it.
\<close>

definition loadedSession :: FullDuplexHfpLoopback where
  "loadedSession = startedSession
     \<lparr>mPlaybackBuffer := [1 / 2, 1 / 2], mPlaybackNumFrames := 2\<rparr>"

definition afterOneLap :: FullDuplexHfpLoopback where
  "afterOneLap = loadedSession
     \<lparr>mPlayedRecording := Some (write_rec [1 / 2, 1 / 2] (write_rec [1 / 2, 1 / 2]
         (MultiChannelRecording_new 2 14400000))),
      mPlaybackPosition := 2,
      mPlayedFrameCount := 2\<rparr>"

text \<open>
  The started session with a clip of three distinct mono frames loaded by
  \<^verbatim>\<open>loadAudioData(rampSamples, 3, 1, 48000)\<close> and looping switched off.
\<close>

definition rampSamples :: float_ptr where
  "rampSamples i = (1 + real i) / 4"

definition endingSession :: FullDuplexHfpLoopback where
  "endingSession = startedSession
     \<lparr>mPlaybackBuffer := [1 / 4, 1 / 2, 3 / 4], mPlaybackNumFrames := 3, mLoopPlayback := False\<rparr>"

section \<open>Properties\<close>

declare playbackLoop.simps [simp del]
declare inputLoop.simps [simp del]

subsection \<open>The playback loop\<close>

lemma those_map_Some:
  "(\<And>x. x \<in> set xs \<Longrightarrow> f x = Some (g x)) \<Longrightarrow> those (map f xs) = Some (map g xs)"
  by (induction xs) auto

lemma clip_index_in_range:
  fixes p nf cc r :: int
  assumes "0 \<le> p" "p < nf" "0 < cc" "0 \<le> r" "r < cc"
  shows "0 \<le> p * cc + r" "p * cc + r < nf * cc"
proof -
  show "0 \<le> p * cc + r" using assms by simp
  have "p + 1 \<le> nf" using assms by simp
  then have "(p + 1) * cc \<le> nf * cc" using assms by (simp add: mult_right_mono)
  then show "p * cc + r < nf * cc" using assms by (simp add: algebra_simps)
qed

lemma copyFrame_clipOk:
  assumes "clipOk s" "mPlaybackPosition s < mPlaybackNumFrames s"
  shows "copyFrame s outCh =
     Some (specFrame (mPlaybackBuffer s) (mPlaybackChannelCount s) outCh (mPlaybackPosition s))"
proof -
  let ?cc = "mPlaybackChannelCount s"
  let ?p = "mPlaybackPosition s"
  have cc: "0 < ?cc" and p0: "0 \<le> ?p"
    and len: "int (length (mPlaybackBuffer s)) = mPlaybackNumFrames s * ?cc"
    using assms by (simp_all add: clipOk_def)
  have "\<And>c. srcChannelOf (int c) ?cc = Some (int c mod ?cc)"
    using cc by (simp add: srcChannelOf_def)
  moreover have "\<And>c. readSample (mPlaybackBuffer s) (?p * ?cc + int c mod ?cc)
      = Some (mPlaybackBuffer s ! nat (?p * ?cc + int c mod ?cc))"
    using clip_index_in_range [OF p0 assms(2) cc, of "int c mod ?cc" for c] cc len
    by (simp add: readSample_def)
  ultimately show ?thesis
    by (simp add: copyFrame_def specFrame_def those_map_Some)
qed


lemma appendFrames_Nil [simp]: "appendFrames [] r = r"
  by (cases r) (simp_all add: appendFrames_def)

lemma appendFrames_write_rec:
  "appendFrames fs (map_option (write_rec fr) r) = appendFrames (fr # fs) r"
  by (cases r) (simp_all add: appendFrames_def write_rec_def)

lemma playbackLoop_done:
  "numOutputFrames \<le> framesWritten \<Longrightarrow> playbackLoop outCh numOutputFrames framesWritten s out = Some (s, out)"
  by (simp add: playbackLoop.simps)

lemma mod_shift_left:
  fixes p n x :: int
  shows "(p mod n + x) mod n = (p + x) mod n"
  by (simp add: mod_simps)

lemma playbackLoop_looping:
  assumes "clipOk s" "0 < mPlaybackNumFrames s" "mLoopPlayback s" "numOutputFrames - framesWritten = int k"
  shows "playbackLoop outCh numOutputFrames framesWritten s out =
     Some (s\<lparr>mPlayedRecording := appendFrames
                 (map (\<lambda>j. specFrame (mPlaybackBuffer s) (mPlaybackChannelCount s) outCh
                          ((mPlaybackPosition s + int j) mod mPlaybackNumFrames s)) [0..<k])
                 (mPlayedRecording s),
             mPlaybackPosition := (if k = 0 then mPlaybackPosition s
                else (mPlaybackPosition s + int (k - 1)) mod mPlaybackNumFrames s + 1),
             mPlayedFrameCount := mPlayedFrameCount s + int k\<rparr>,
           out @ map (\<lambda>j. specFrame (mPlaybackBuffer s) (mPlaybackChannelCount s) outCh
                          ((mPlaybackPosition s + int j) mod mPlaybackNumFrames s)) [0..<k])"
  using assms
proof (induction k arbitrary: s framesWritten out)
  case 0
  then show ?case by (simp add: playbackLoop_done)
next
  case (Suc k)
  let ?nf = "mPlaybackNumFrames s"
  let ?p = "mPlaybackPosition s"
  define p0 where "p0 = (if ?p \<ge> ?nf then 0 else ?p)"
  define s1 where "s1 = (if ?p \<ge> ?nf then s\<lparr>mPlaybackPosition := 0\<rparr> else s)"
  have p0_mod: "p0 = ?p mod ?nf"
    using Suc.prems by (auto simp: p0_def clipOk_def)
  have s1_ok: "clipOk s1" "mPlaybackPosition s1 < mPlaybackNumFrames s1" "mPlaybackPosition s1 = p0"
    "mPlaybackBuffer s1 = mPlaybackBuffer s" "mPlaybackChannelCount s1 = mPlaybackChannelCount s"
    "mPlaybackNumFrames s1 = ?nf"
    using Suc.prems by (auto simp: s1_def p0_def clipOk_def)
  define fr where "fr = specFrame (mPlaybackBuffer s) (mPlaybackChannelCount s) outCh p0"
  have cf: "copyFrame s1 outCh = Some fr"
    using copyFrame_clipOk [OF s1_ok(1,2)] s1_ok by (simp add: fr_def)
  define s3 where "s3 = s1\<lparr>mPlayedRecording := map_option (write_rec fr) (mPlayedRecording s1),
                         mPlaybackPosition := mPlaybackPosition s1 + 1,
                         mPlayedFrameCount := mPlayedFrameCount s1 + 1\<rparr>"
  have unfold: "playbackLoop outCh numOutputFrames framesWritten s out =
      playbackLoop outCh numOutputFrames (framesWritten + 1) s3 (out @ [fr])"
    using Suc.prems cf
    by (subst playbackLoop.simps) (simp add: s1_def s3_def Let_def)
  have s3_ok: "clipOk s3" "0 < mPlaybackNumFrames s3" "mLoopPlayback s3"
    "numOutputFrames - (framesWritten + 1) = int k"
    using Suc.prems s1_ok by (auto simp: s3_def clipOk_def s1_def)
  have s3_fields: "mPlaybackBuffer s3 = mPlaybackBuffer s" "mPlaybackChannelCount s3 = mPlaybackChannelCount s"
    "mPlaybackNumFrames s3 = ?nf" "mPlaybackPosition s3 = p0 + 1"
    using s1_ok by (simp_all add: s3_def)
  have shift: "\<And>j. (p0 + 1 + int j) mod ?nf = (?p + int (Suc j)) mod ?nf"
    unfolding p0_mod using mod_shift_left [of ?p ?nf "1 + int j" for j] by (simp add: algebra_simps)
  have first: "fr = specFrame (mPlaybackBuffer s) (mPlaybackChannelCount s) outCh ((?p + int 0) mod ?nf)"
    by (simp add: fr_def p0_mod)
  have posk: "(if k = 0 then p0 + 1 else (p0 + 1 + int (k - 1)) mod ?nf + 1)
      = (?p + int (Suc k - 1)) mod ?nf + 1"
  proof (cases "k = 0")
    case True
    then show ?thesis by (simp add: p0_mod)
  next
    case False
    then have "p0 + 1 + int (k - 1) = ?p mod ?nf + int k"
      by (simp add: p0_mod of_nat_diff)
    then have "(p0 + 1 + int (k - 1)) mod ?nf = (?p + int k) mod ?nf"
      by (simp add: mod_shift_left)
    with False show ?thesis by simp
  qed
  have fs_eq: "map (\<lambda>j. specFrame (mPlaybackBuffer s) (mPlaybackChannelCount s) outCh ((?p + int j) mod ?nf)) [0..<Suc k]
      = fr # map (\<lambda>j. specFrame (mPlaybackBuffer s) (mPlaybackChannelCount s) outCh ((p0 + 1 + int j) mod ?nf)) [0..<k]"
    unfolding shift
    by (simp add: upt_rec [of 0 "Suc k"] map_Suc_upt [symmetric] first comp_def del: upt_Suc)
  have played: "mPlayedFrameCount s + 1 + int k = mPlayedFrameCount s + int (Suc k)"
    by simp
  show ?case
    unfolding unfold Suc.IH [OF s3_ok] s3_fields fs_eq
    using posk by (simp add: s3_def s1_def appendFrames_write_rec)
qed


lemma memsetFrames_nonneg:
  assumes "0 \<le> n" "0 \<le> outCh"
  shows "memsetFrames outCh n = Some (replicate (nat n) (replicate (nat outCh) 0))"
proof -
  have "0 \<le> n * outCh" using assms by (rule mult_nonneg_nonneg)
  then show ?thesis using assms by (simp add: memsetFrames_def not_less)
qed

lemma playbackLoop_ending:
  assumes "clipOk s" "\<not> mLoopPlayback s" "0 \<le> outCh" "numOutputFrames - framesWritten = int k"
  shows "playbackLoop outCh numOutputFrames framesWritten s out =
     Some (s\<lparr>mPlayedRecording := appendFrames
                 (map (\<lambda>j. specFrame (mPlaybackBuffer s) (mPlaybackChannelCount s) outCh
                          (mPlaybackPosition s + int j))
                    [0..<min k (nat (mPlaybackNumFrames s - mPlaybackPosition s))])
                 (mPlayedRecording s),
             mPlaybackPosition := mPlaybackPosition s
                + int (min k (nat (mPlaybackNumFrames s - mPlaybackPosition s))),
             mPlayedFrameCount := mPlayedFrameCount s
                + int (min k (nat (mPlaybackNumFrames s - mPlaybackPosition s)))\<rparr>,
           out @ map (\<lambda>j. specFrame (mPlaybackBuffer s) (mPlaybackChannelCount s) outCh
                          (mPlaybackPosition s + int j))
                    [0..<min k (nat (mPlaybackNumFrames s - mPlaybackPosition s))]
               @ replicate (k - min k (nat (mPlaybackNumFrames s - mPlaybackPosition s)))
                   (replicate (nat outCh) 0))"
  using assms
proof (induction k arbitrary: s framesWritten out)
  case 0
  then show ?case by (simp add: playbackLoop_done)
next
  case (Suc k)
  let ?nf = "mPlaybackNumFrames s"
  let ?p = "mPlaybackPosition s"
  show ?case
  proof (cases "?p \<ge> ?nf")
    case True
    have "nat (numOutputFrames - framesWritten) = Suc k"
      using Suc.prems by simp
    then have "memsetFrames outCh (numOutputFrames - framesWritten)
        = Some (replicate (Suc k) (replicate (nat outCh) 0))"
      using Suc.prems memsetFrames_nonneg [of "numOutputFrames - framesWritten" outCh] by simp
    then have "playbackLoop outCh numOutputFrames framesWritten s out =
        Some (s, out @ replicate (Suc k) (replicate (nat outCh) 0))"
      using Suc.prems True by (subst playbackLoop.simps) simp
    moreover have "nat (?nf - ?p) = 0" using True by simp
    ultimately show ?thesis by simp
  next
    case False
    define fr where "fr = specFrame (mPlaybackBuffer s) (mPlaybackChannelCount s) outCh ?p"
    have cf: "copyFrame s outCh = Some fr"
      using copyFrame_clipOk [of s outCh] Suc.prems False by (simp add: fr_def)
    define s3 where "s3 = s\<lparr>mPlayedRecording := map_option (write_rec fr) (mPlayedRecording s),
                         mPlaybackPosition := ?p + 1,
                         mPlayedFrameCount := mPlayedFrameCount s + 1\<rparr>"
    have unfold: "playbackLoop outCh numOutputFrames framesWritten s out =
        playbackLoop outCh numOutputFrames (framesWritten + 1) s3 (out @ [fr])"
      using Suc.prems cf False
      by (subst playbackLoop.simps) (simp add: s3_def Let_def)
    have s3_ok: "clipOk s3" "\<not> mLoopPlayback s3" "0 \<le> outCh"
      "numOutputFrames - (framesWritten + 1) = int k"
      using Suc.prems False by (auto simp: s3_def clipOk_def)
    have s3_fields: "mPlaybackBuffer s3 = mPlaybackBuffer s"
      "mPlaybackChannelCount s3 = mPlaybackChannelCount s"
      "mPlaybackNumFrames s3 = ?nf" "mPlaybackPosition s3 = ?p + 1"
      by (simp_all add: s3_def)
    have rem: "nat (?nf - ?p) = Suc (nat (?nf - (?p + 1)))"
      using False by simp
    have fs_eq: "map (\<lambda>j. specFrame (mPlaybackBuffer s) (mPlaybackChannelCount s) outCh (?p + int j))
          [0..<Suc c]
        = fr # map (\<lambda>j. specFrame (mPlaybackBuffer s) (mPlaybackChannelCount s) outCh (?p + 1 + int j))
          [0..<c]" for c
      by (simp add: upt_rec [of 0 "Suc c"] map_Suc_upt [symmetric] fr_def comp_def algebra_simps
            del: upt_Suc)
    show ?thesis
      unfolding unfold Suc.IH [OF s3_ok] s3_fields rem min_Suc_Suc fs_eq
      by (simp add: s3_def appendFrames_write_rec)
  qed
qed

lemma processOutput_closed:
  assumes "clipOk s" "0 \<le> numOutputFrames" "0 \<le> outputChannelCount cfg"
  shows "processOutput cfg numOutputFrames s =
     Some (s\<lparr>mPlayedRecording :=
                appendFrames (clipFrames s (outputChannelCount cfg) (copied s numOutputFrames))
                  (mPlayedRecording s),
             mPlaybackPosition := cursorAfter s (copied s numOutputFrames),
             mPlayedFrameCount := mPlayedFrameCount s + int (copied s numOutputFrames)\<rparr>,
           clipFrames s (outputChannelCount cfg) (copied s numOutputFrames)
             @ replicate (nat numOutputFrames - copied s numOutputFrames)
                 (replicate (nat (outputChannelCount cfg)) 0))"
proof (cases "mPlaybackBuffer s = [] \<or> mPlaybackNumFrames s = 0")
  case True
  then show ?thesis
    using assms memsetFrames_nonneg [of numOutputFrames "outputChannelCount cfg"]
    by (simp add: processOutput_def copied_def clipFrames_def cursorAfter_def)
next
  case False
  then have nf: "0 < mPlaybackNumFrames s"
    using assms(1) by (simp add: clipOk_def)
  have k: "numOutputFrames - 0 = int (nat numOutputFrames)"
    using assms(2) by simp
  show ?thesis
  proof (cases "mLoopPlayback s")
    case True
    show ?thesis
      using False True playbackLoop_looping [OF assms(1) nf True k, of "outputChannelCount cfg" "[]"]
      by (simp add: processOutput_def copied_def clipFrames_def cursorAfter_def cursorAt_def)
  next
    case loop: False
    have ca: "cursorAfter s c = mPlaybackPosition s + int c" for c
      using loop by (cases c) (simp_all add: cursorAfter_def cursorAt_def)
    show ?thesis
      using False loop playbackLoop_ending [OF assms(1) loop assms(3) k, of "[]"]
      by (simp add: processOutput_def copied_def clipFrames_def cursorAt_def ca)
  qed
qed

lemma copied_le: "copied s n \<le> nat n"
  by (simp add: copied_def)

lemma copied_pos_clip:
  assumes "clipOk s" "copied s n \<noteq> 0"
  shows "0 < mPlaybackNumFrames s"
proof -
  have "mPlaybackNumFrames s \<noteq> 0"
    using assms(2) by (auto simp: copied_def)
  then show ?thesis using assms(1) by (simp add: clipOk_def)
qed

lemma cursorAfter_looping:
  assumes "mLoopPlayback s" "0 < mPlaybackNumFrames s" "c \<noteq> 0"
  shows "0 < cursorAfter s c \<and> cursorAfter s c \<le> mPlaybackNumFrames s"
proof -
  let ?x = "(mPlaybackPosition s + int (c - 1)) mod mPlaybackNumFrames s"
  have "0 \<le> ?x" "?x < mPlaybackNumFrames s"
    using assms(2) by simp_all
  moreover have "cursorAfter s c = ?x + 1"
    using assms(1,3) by (simp add: cursorAfter_def cursorAt_def)
  ultimately show ?thesis by linarith
qed

lemma cursorAfter_ending:
  assumes "\<not> mLoopPlayback s"
  shows "cursorAfter s c = mPlaybackPosition s + int c"
  using assms by (cases c) (simp_all add: cursorAfter_def cursorAt_def)

lemma cursorAfter_bounds:
  assumes "clipOk s"
  shows "0 \<le> cursorAfter s (copied s n) \<and> cursorAfter s (copied s n) \<le> mPlaybackNumFrames s"
proof (cases "copied s n = 0")
  case True
  have "cursorAfter s 0 = mPlaybackPosition s"
    by (simp add: cursorAfter_def)
  then show ?thesis using assms unfolding True by (simp add: clipOk_def)
next
  case False
  have nf: "0 < mPlaybackNumFrames s"
    using assms False by (rule copied_pos_clip)
  show ?thesis
  proof (cases "mLoopPlayback s")
    case True
    then show ?thesis
      using cursorAfter_looping [OF True nf False] by linarith
  next
    case loop: False
    have "copied s n \<le> nat (mPlaybackNumFrames s - mPlaybackPosition s)"
      using loop False by (simp add: copied_def split: if_splits)
    then have "int (copied s n) \<le> mPlaybackNumFrames s - mPlaybackPosition s"
      using assms by (simp add: clipOk_def le_nat_iff)
    then show ?thesis
      using assms unfolding cursorAfter_ending [OF loop] by (simp add: clipOk_def)
  qed
qed

subsection \<open>The capture loop\<close>

lemma process_nonneg:
  "0 \<le> decay \<Longrightarrow> 0 \<le> getLevel d \<Longrightarrow> 0 \<le> getLevel (process decay x d)"
  by (simp add: process_def getLevel_def)

lemma length_fold_update:
  "length (fold (\<lambda>ch ds'. ds'[ch := f ch (ds' ! ch)]) xs ds) = length ds"
  by (induction xs arbitrary: ds) simp_all

lemma list_all_update:
  assumes "list_all P ds" "\<And>d. P d \<Longrightarrow> P (f d)"
  shows "list_all P (ds[ch := f (ds ! ch)])"
proof (cases "ch < length ds")
  case True
  then have "P (f (ds ! ch))"
    using assms by (simp add: list_all_length)
  then show ?thesis
    using assms(1) set_update_subset_insert [of ds ch "f (ds ! ch)"]
    by (auto simp: list_all_iff)
next
  case False
  then have "ds[ch := f (ds ! ch)] = ds" by (simp add: list_update_beyond)
  then show ?thesis using assms(1) by simp
qed

lemma list_all_fold_update:
  assumes "list_all P ds" "\<And>ch d. P d \<Longrightarrow> P (f ch d)"
  shows "list_all P (fold (\<lambda>ch ds'. ds'[ch := f ch (ds' ! ch)]) xs ds)"
  using assms(1)
proof (induction xs arbitrary: ds)
  case Nil
  then show ?case by simp
next
  case (Cons ch xs)
  have "list_all P (ds[ch := f ch (ds ! ch)])"
    using list_all_update [OF Cons.prems, of "f ch"] assms(2) by simp
  then show ?case using Cons.IH by simp
qed

lemma updatePeakDetectors_ok:
  assumes "detectorsOk s"
  shows "\<exists>pd. updatePeakDetectors decay inCh fr s = Some (s\<lparr>mPeakDetectors := pd\<rparr>)
           \<and> detectorsOk (s\<lparr>mPeakDetectors := pd\<rparr>)
           \<and> (pd = None) = (mPeakDetectors s = None)
           \<and> (0 \<le> decay \<longrightarrow> levelsOk s \<longrightarrow> levelsOk (s\<lparr>mPeakDetectors := pd\<rparr>))"
proof (cases "nat (min inCh (mNumInputChannels s)) = 0")
  case True
  then have "updatePeakDetectors decay inCh fr s = Some (s\<lparr>mPeakDetectors := mPeakDetectors s\<rparr>)"
    by (simp add: updatePeakDetectors_def)
  then show ?thesis using assms by (intro exI [of _ "mPeakDetectors s"]) simp
next
  case False
  then obtain ds where ds: "mPeakDetectors s = Some ds" "int (length ds) = mNumInputChannels s"
    using assms by (cases "mPeakDetectors s") (auto simp: detectorsOk_def)
  let ?n = "nat (min inCh (mNumInputChannels s))"
  let ?ds' = "fold (\<lambda>ch ds'. ds'[ch := process decay (fr ! ch) (ds' ! ch)]) [0..<?n] ds"
  have "\<not> length ds < ?n" using ds(2) by simp
  then have upd: "updatePeakDetectors decay inCh fr s = Some (s\<lparr>mPeakDetectors := Some ?ds'\<rparr>)"
    using False ds(1) by (simp add: updatePeakDetectors_def Let_def)
  have det: "detectorsOk (s\<lparr>mPeakDetectors := Some ?ds'\<rparr>)"
    using ds(2) length_fold_update [of "\<lambda>ch. process decay (fr ! ch)" "[0..<?n]" ds]
    by (simp add: detectorsOk_def)
  have lev: "levelsOk (s\<lparr>mPeakDetectors := Some ?ds'\<rparr>)" if "0 \<le> decay" "levelsOk s"
  proof -
    have "list_all (\<lambda>d. 0 \<le> getLevel d) ds"
      using that(2) ds(1) by (simp add: levelsOk_def)
    then have "list_all (\<lambda>d. 0 \<le> getLevel d) ?ds'"
      using list_all_fold_update [of "\<lambda>d. 0 \<le> getLevel d" ds "\<lambda>ch. process decay (fr ! ch)" "[0..<?n]"]
      by (simp add: process_nonneg that(1))
    then show ?thesis by (simp add: levelsOk_def)
  qed
  show ?thesis
  proof (intro exI [of _ "Some ?ds'"] conjI impI)
    show "updatePeakDetectors decay inCh fr s = Some (s\<lparr>mPeakDetectors := Some ?ds'\<rparr>)"
      by (rule upd)
    show "detectorsOk (s\<lparr>mPeakDetectors := Some ?ds'\<rparr>)" by (rule det)
    show "(Some ?ds' = None) = (mPeakDetectors s = None)" using ds(1) by simp
    show "levelsOk (s\<lparr>mPeakDetectors := Some ?ds'\<rparr>)" if "0 \<le> decay" "levelsOk s"
      using that by (rule lev)
  qed
qed

lemma inputLoop_ok:
  assumes "detectorsOk s" "nat (numInputFrames - i) = k"
  shows "\<exists>rr pd. inputLoop decay inCh inputData numInputFrames i s =
            Some (s\<lparr>mRecordedRecording := rr, mPeakDetectors := pd,
                    mRecordedFrameCount := mRecordedFrameCount s + int k\<rparr>)
           \<and> detectorsOk (s\<lparr>mPeakDetectors := pd\<rparr>)
           \<and> (pd = None) = (mPeakDetectors s = None)
           \<and> (0 \<le> decay \<longrightarrow> levelsOk s \<longrightarrow> levelsOk (s\<lparr>mPeakDetectors := pd\<rparr>))"
  using assms
proof (induction k arbitrary: s i)
  case 0
  then have "inputLoop decay inCh inputData numInputFrames i s =
      Some (s\<lparr>mRecordedRecording := mRecordedRecording s, mPeakDetectors := mPeakDetectors s,
              mRecordedFrameCount := mRecordedFrameCount s + int 0\<rparr>)"
    by (subst inputLoop.simps) simp
  then show ?case using "0.prems"(1)
    by (intro exI [of _ "mRecordedRecording s"] exI [of _ "mPeakDetectors s"]) simp
next
  case (Suc k)
  define fr where "fr = readFrame inputData (i * inCh) inCh"
  define s1 where "s1 = s\<lparr>mRecordedRecording := map_option (write_rec fr) (mRecordedRecording s)\<rparr>"
  have s1_ok: "detectorsOk s1"
    using Suc.prems(1) by (simp add: s1_def detectorsOk_def split: option.splits)
  obtain pd where pd: "updatePeakDetectors decay inCh fr s1 = Some (s1\<lparr>mPeakDetectors := pd\<rparr>)"
      "detectorsOk (s1\<lparr>mPeakDetectors := pd\<rparr>)"
      "(pd = None) = (mPeakDetectors s1 = None)"
      "0 \<le> decay \<longrightarrow> levelsOk s1 \<longrightarrow> levelsOk (s1\<lparr>mPeakDetectors := pd\<rparr>)"
    using updatePeakDetectors_ok [OF s1_ok, of decay inCh fr] by (elim exE conjE) (rule that)
  define s3 where "s3 = s1\<lparr>mPeakDetectors := pd, mRecordedFrameCount := mRecordedFrameCount s1 + 1\<rparr>"
  have lt: "i < numInputFrames" using Suc.prems(2) by simp
  have unfold: "inputLoop decay inCh inputData numInputFrames i s =
      inputLoop decay inCh inputData numInputFrames (i + 1) s3"
    using lt pd(1)
    by (subst inputLoop.simps) (simp add: Let_def fr_def [symmetric] s1_def [symmetric] s3_def)
  have s3_ok: "detectorsOk s3" "nat (numInputFrames - (i + 1)) = k"
    using pd(2) Suc.prems(2) by (simp_all add: s3_def detectorsOk_def split: option.splits)
  obtain rr pd' where r: "inputLoop decay inCh inputData numInputFrames (i + 1) s3 =
        Some (s3\<lparr>mRecordedRecording := rr, mPeakDetectors := pd',
                 mRecordedFrameCount := mRecordedFrameCount s3 + int k\<rparr>)"
      "detectorsOk (s3\<lparr>mPeakDetectors := pd'\<rparr>)"
      "(pd' = None) = (mPeakDetectors s3 = None)"
      "0 \<le> decay \<longrightarrow> levelsOk s3 \<longrightarrow> levelsOk (s3\<lparr>mPeakDetectors := pd'\<rparr>)"
    using Suc.IH [OF s3_ok] by (elim exE conjE) (rule that)
  have eq: "s3\<lparr>mRecordedRecording := rr, mPeakDetectors := pd',
                 mRecordedFrameCount := mRecordedFrameCount s3 + int k\<rparr>
      = s\<lparr>mRecordedRecording := rr, mPeakDetectors := pd',
                    mRecordedFrameCount := mRecordedFrameCount s + int (Suc k)\<rparr>"
    by (simp add: s3_def s1_def)
  have d: "detectorsOk (s\<lparr>mPeakDetectors := pd'\<rparr>)"
    using r(2) by (simp add: s3_def s1_def detectorsOk_def split: option.splits)
  have l: "levelsOk (s\<lparr>mPeakDetectors := pd'\<rparr>)" if "0 \<le> decay" "levelsOk s"
  proof -
    have "levelsOk s1" using that(2) by (simp add: s1_def levelsOk_def split: option.splits)
    then have "levelsOk s3" using pd(4) that(1) by (simp add: s3_def levelsOk_def split: option.splits)
    then have "levelsOk (s3\<lparr>mPeakDetectors := pd'\<rparr>)" using r(4) that(1) by simp
    then show ?thesis by (simp add: levelsOk_def split: option.splits)
  qed
  have n: "(pd' = None) = (mPeakDetectors s = None)"
    using r(3) pd(3) by (simp add: s3_def s1_def)
  show ?case
    unfolding unfold r(1) eq
  proof (intro exI [of _ rr] exI [of _ pd'] conjI impI)
    show "levelsOk (s\<lparr>mPeakDetectors := pd'\<rparr>)" if "0 \<le> decay" "levelsOk s"
      using that by (rule l)
  qed (simp_all add: d n)
qed

subsection \<open>One callback\<close>

lemma callback_post_any:
  assumes "clipOk s" "detectorsOk s" "0 \<le> numOutputFrames" "0 \<le> outputChannelCount cfg"
  shows "\<exists>s' out. onBothStreamsReadyFloat decay cfg inputData numInputFrames numOutputFrames s
            = Some (Continue, s', out)
          \<and> callbackPost cfg decay s (int (nat numInputFrames)) numOutputFrames s' out"
proof -
  define s1 where "s1 = s\<lparr>mPlayedRecording :=
                appendFrames (clipFrames s (outputChannelCount cfg) (copied s numOutputFrames))
                  (mPlayedRecording s),
             mPlaybackPosition := cursorAfter s (copied s numOutputFrames),
             mPlayedFrameCount := mPlayedFrameCount s + int (copied s numOutputFrames)\<rparr>"
  have out: "processOutput cfg numOutputFrames s =
     Some (s1, clipFrames s (outputChannelCount cfg) (copied s numOutputFrames)
             @ replicate (nat numOutputFrames - copied s numOutputFrames)
                 (replicate (nat (outputChannelCount cfg)) 0))"
    unfolding s1_def by (rule processOutput_closed [OF assms(1,3,4)])
  have s1_det: "detectorsOk s1"
    using assms(2) by (simp add: s1_def detectorsOk_def split: option.splits)
  have s1_clip: "clipOk s1"
    using assms(1) cursorAfter_bounds [OF assms(1), of numOutputFrames]
    by (simp add: s1_def clipOk_def)
  have "\<exists>rr pd. inputLoop decay (inputChannelCount cfg) inputData numInputFrames 0 s1 =
         Some (s1\<lparr>mRecordedRecording := rr, mPeakDetectors := pd,
                 mRecordedFrameCount := mRecordedFrameCount s1 + int (nat numInputFrames)\<rparr>)
      \<and> detectorsOk (s1\<lparr>mPeakDetectors := pd\<rparr>)
      \<and> (pd = None) = (mPeakDetectors s1 = None)
      \<and> (0 \<le> decay \<longrightarrow> levelsOk s1 \<longrightarrow> levelsOk (s1\<lparr>mPeakDetectors := pd\<rparr>))"
    using inputLoop_ok [OF s1_det, of numInputFrames 0 "nat numInputFrames" decay "inputChannelCount cfg" inputData]
    by simp
  then obtain rr pd where inp:
      "inputLoop decay (inputChannelCount cfg) inputData numInputFrames 0 s1 =
         Some (s1\<lparr>mRecordedRecording := rr, mPeakDetectors := pd,
                 mRecordedFrameCount := mRecordedFrameCount s1 + int (nat numInputFrames)\<rparr>)"
      "detectorsOk (s1\<lparr>mPeakDetectors := pd\<rparr>)"
      "(pd = None) = (mPeakDetectors s1 = None)"
      "0 \<le> decay \<longrightarrow> levelsOk s1 \<longrightarrow> levelsOk (s1\<lparr>mPeakDetectors := pd\<rparr>)"
    by (elim exE conjE) (rule that)
  define s2 where "s2 = s1\<lparr>mRecordedRecording := rr, mPeakDetectors := pd,
                 mRecordedFrameCount := mRecordedFrameCount s1 + int (nat numInputFrames)\<rparr>"
  have cb: "onBothStreamsReadyFloat decay cfg inputData numInputFrames numOutputFrames s =
       Some (Continue, s2,
         clipFrames s (outputChannelCount cfg) (copied s numOutputFrames)
           @ replicate (nat numOutputFrames - copied s numOutputFrames)
               (replicate (nat (outputChannelCount cfg)) 0))"
    by (simp add: onBothStreamsReadyFloat_def out inp(1) s2_def)
  have lv: "levelsOk s2" if "0 \<le> decay" "levelsOk s"
  proof -
    have "levelsOk s1" using that(2) by (simp add: s1_def levelsOk_def split: option.splits)
    then have "levelsOk (s1\<lparr>mPeakDetectors := pd\<rparr>)" using inp(4) that(1) by simp
    then show ?thesis by (simp add: s2_def levelsOk_def split: option.splits)
  qed
  have post: "callbackPost cfg decay s (int (nat numInputFrames)) numOutputFrames s2
         (clipFrames s (outputChannelCount cfg) (copied s numOutputFrames)
           @ replicate (nat numOutputFrames - copied s numOutputFrames)
               (replicate (nat (outputChannelCount cfg)) 0))"
    unfolding callbackPost_def
  proof (intro conjI impI)
    show "clipOk s2" using s1_clip by (simp add: s2_def clipOk_def)
    show "detectorsOk s2" using inp(2) by (simp add: s2_def detectorsOk_def split: option.splits)
    show "(mPeakDetectors s2 = None) = (mPeakDetectors s = None)"
      using inp(3) by (simp add: s2_def s1_def)
    show "levelsOk s2" if "0 \<le> decay" "levelsOk s" using that by (rule lv)
    show "mRecordedFrameCount s2 = mRecordedFrameCount s + int (nat numInputFrames)"
      by (simp add: s2_def s1_def)
  qed (simp_all add: s2_def s1_def)
  show ?thesis
    using cb post by (intro exI [of _ s2] exI conjI)
qed

lemma callback_post:
  assumes "clipOk s" "detectorsOk s" "0 \<le> numInputFrames" "0 \<le> numOutputFrames"
    "0 \<le> outputChannelCount cfg"
  shows "\<exists>s' out. onBothStreamsReadyFloat decay cfg inputData numInputFrames numOutputFrames s
            = Some (Continue, s', out)
          \<and> callbackPost cfg decay s numInputFrames numOutputFrames s' out"
  using callback_post_any [OF assms(1,2,4,5), of decay inputData numInputFrames] assms(3)
  by simp

subsection \<open>Runs of callbacks\<close>

lemma inputTotal_nonneg: "requestsOk rs \<Longrightarrow> 0 \<le> inputTotal rs"
  by (induction rs rule: requestsOk.induct) simp_all

lemma outputTotal_nonneg: "requestsOk rs \<Longrightarrow> 0 \<le> outputTotal rs"
  by (induction rs rule: requestsOk.induct) simp_all

lemma appendFrames_append:
  "appendFrames fs2 (appendFrames fs1 r) = appendFrames (fs1 @ fs2) r"
  by (cases r) (simp_all add: appendFrames_def)

text \<open>Two requests in a row copy what one request of the total length copies.\<close>

lemma cursorAt_shift:
  assumes "mLoopPlayback s1 = mLoopPlayback s" "mPlaybackNumFrames s1 = mPlaybackNumFrames s"
    "mPlaybackPosition s1 = cursorAfter s c1"
  shows "cursorAt s1 j = cursorAt s (c1 + j)"
proof (cases "mLoopPlayback s")
  case False
  then show ?thesis
    using assms by (simp add: cursorAt_def cursorAfter_ending)
next
  case True
  show ?thesis
  proof (cases "c1 = 0")
    case c0: True
    then show ?thesis using assms by (simp add: cursorAt_def cursorAfter_def)
  next
    case False
    let ?nf = "mPlaybackNumFrames s"
    let ?p = "mPlaybackPosition s"
    have "mPlaybackPosition s1 + int j = (?p + int (c1 - 1)) mod ?nf + (1 + int j)"
      using assms(3) False True by (simp add: cursorAfter_def cursorAt_def)
    then have "(mPlaybackPosition s1 + int j) mod ?nf = (?p + int (c1 - 1) + (1 + int j)) mod ?nf"
      by (simp only: mod_shift_left)
    moreover have "?p + int (c1 - 1) + (1 + int j) = ?p + int (c1 + j)"
      using False by (simp add: of_nat_diff)
    ultimately show ?thesis
      using True assms(1,2) by (simp add: cursorAt_def)
  qed
qed

lemma clipFrames_compose:
  assumes "mLoopPlayback s1 = mLoopPlayback s" "mPlaybackNumFrames s1 = mPlaybackNumFrames s"
    "mPlaybackPosition s1 = cursorAfter s c1"
    "mPlaybackBuffer s1 = mPlaybackBuffer s" "mPlaybackChannelCount s1 = mPlaybackChannelCount s"
  shows "clipFrames s outCh c1 @ clipFrames s1 outCh c2 = clipFrames s outCh (c1 + c2)"
proof -
  let ?F = "\<lambda>j. specFrame (mPlaybackBuffer s) (mPlaybackChannelCount s) outCh (cursorAt s j)"
  have "[0..<c1 + c2] = [0..<c1] @ [c1..<c2 + c1]"
    using upt_add_eq_append [of 0 c1 c2] by (simp add: add.commute)
  also have "[c1..<c2 + c1] = map (\<lambda>j. j + c1) [0..<c2]"
    by (simp only: map_add_upt)
  finally have "map ?F [0..<c1 + c2] = map ?F [0..<c1] @ map (\<lambda>j. ?F (j + c1)) [0..<c2]"
    by (simp only: map_append map_map comp_def)
  moreover have "clipFrames s1 outCh c2 = map (\<lambda>j. ?F (j + c1)) [0..<c2]"
    unfolding clipFrames_def assms(4,5) cursorAt_shift [OF assms(1,2,3)]
    by (simp only: add.commute)
  ultimately show ?thesis
    by (simp only: clipFrames_def)
qed

lemma cursorAfter_compose:
  assumes "mLoopPlayback s1 = mLoopPlayback s" "mPlaybackNumFrames s1 = mPlaybackNumFrames s"
    "mPlaybackPosition s1 = cursorAfter s c1"
  shows "cursorAfter s1 c2 = cursorAfter s (c1 + c2)"
proof (cases "c2 = 0")
  case True
  then show ?thesis using assms(3) by (simp add: cursorAfter_def)
next
  case False
  then have "c1 + (c2 - 1) = c1 + c2 - 1" by simp
  then show ?thesis
    using False cursorAt_shift [OF assms, of "c2 - 1"] by (simp add: cursorAfter_def)
qed

lemma copied_compose:
  assumes "clipOk s" "0 \<le> n1" "0 \<le> n2"
    "mLoopPlayback s1 = mLoopPlayback s" "mPlaybackNumFrames s1 = mPlaybackNumFrames s"
    "mPlaybackPosition s1 = cursorAfter s (copied s n1)"
    "mPlaybackBuffer s1 = mPlaybackBuffer s"
  shows "copied s n1 + copied s1 n2 = copied s (n1 + n2)"
proof (cases "mPlaybackBuffer s = [] \<or> mPlaybackNumFrames s = 0")
  case True
  then show ?thesis using assms(5,7) by (simp add: copied_def)
next
  case clip: False
  show ?thesis
  proof (cases "mLoopPlayback s")
    case True
    then show ?thesis
      using clip assms(2,3,4,5,7) by (simp add: copied_def nat_add_distrib)
  next
    case False
    define a where "a = nat n1"
    define b where "b = nat n2"
    define r where "r = nat (mPlaybackNumFrames s - mPlaybackPosition s)"
    have c1: "copied s n1 = min a r"
      using clip False by (simp add: copied_def a_def r_def)
    have p1: "mPlaybackPosition s1 = mPlaybackPosition s + int (min a r)"
      using assms(6) False by (simp add: cursorAfter_ending c1)
    have r1: "nat (mPlaybackNumFrames s - mPlaybackPosition s1) = r - min a r"
      unfolding p1 r_def by arith
    have c2: "copied s1 n2 = min b (r - min a r)"
      using clip False assms(4,5,7) r1 by (simp add: copied_def b_def)
    have ab: "nat (n1 + n2) = a + b"
      unfolding a_def b_def using assms(2,3) by arith
    have c12: "copied s (n1 + n2) = min (a + b) r"
      using clip False ab by (simp add: copied_def r_def)
    show ?thesis
      unfolding c12 c2 c1 by arith
  qed
qed

lemma copied_short:
  assumes "clipOk s" "copied s n1 < nat n1"
    "mLoopPlayback s1 = mLoopPlayback s" "mPlaybackNumFrames s1 = mPlaybackNumFrames s"
    "mPlaybackPosition s1 = cursorAfter s (copied s n1)"
    "mPlaybackBuffer s1 = mPlaybackBuffer s"
  shows "copied s1 n2 = 0"
proof (cases "mPlaybackBuffer s = [] \<or> mPlaybackNumFrames s = 0")
  case True
  then show ?thesis using assms(4,6) by (simp add: copied_def)
next
  case clip: False
  have loop: "\<not> mLoopPlayback s"
  proof
    assume "mLoopPlayback s"
    then have "copied s n1 = nat n1" using clip by (simp add: copied_def)
    then show False using assms(2) by simp
  qed
  define a where "a = nat n1"
  define r where "r = nat (mPlaybackNumFrames s - mPlaybackPosition s)"
  have c1: "copied s n1 = min a r"
    using clip loop by (simp add: copied_def a_def r_def)
  have "min a r < a" using assms(2) c1 by (simp add: a_def)
  then have c1': "copied s n1 = r" unfolding c1 by arith
  have p1: "mPlaybackPosition s1 = mPlaybackPosition s + int r"
    using assms(5) loop by (simp add: cursorAfter_ending c1')
  have r1: "nat (mPlaybackNumFrames s - mPlaybackPosition s1) = 0"
    unfolding p1 r_def by arith
  show ?thesis
    using clip loop assms(3,4,6) r1 by (simp add: copied_def)
qed

lemma callbackPost_refl:
  assumes "clipOk s" "detectorsOk s"
  shows "callbackPost cfg decay s 0 0 s []"
  using assms by (simp add: callbackPost_def copied_def clipFrames_def cursorAfter_def)

lemma callbackPost_compose:
  assumes "clipOk s" "0 \<le> n1" "0 \<le> n2"
    "callbackPost cfg decay s m1 n1 s1 out1" "callbackPost cfg decay s1 m2 n2 s2 out2"
  shows "callbackPost cfg decay s (m1 + m2) (n1 + n2) s2 (out1 @ out2)"
proof -
  let ?oc = "outputChannelCount cfg"
  let ?z = "replicate (nat ?oc) (0::real)"
  have a: "out1 = clipFrames s ?oc (copied s n1) @ replicate (nat n1 - copied s n1) ?z"
    "mPlaybackBuffer s1 = mPlaybackBuffer s"
    "mPlaybackNumFrames s1 = mPlaybackNumFrames s"
    "mPlaybackChannelCount s1 = mPlaybackChannelCount s"
    "mPlaybackSampleRate s1 = mPlaybackSampleRate s"
    "mLoopPlayback s1 = mLoopPlayback s"
    "mPlaybackPosition s1 = cursorAfter s (copied s n1)"
    "mPlayedFrameCount s1 = mPlayedFrameCount s + int (copied s n1)"
    "mPlayedRecording s1 = appendFrames (clipFrames s ?oc (copied s n1)) (mPlayedRecording s)"
    "mRecordedFrameCount s1 = mRecordedFrameCount s + m1"
    "mNumInputChannels s1 = mNumInputChannels s"
    "(mPeakDetectors s1 = None) = (mPeakDetectors s = None)"
    "0 \<le> decay \<longrightarrow> levelsOk s \<longrightarrow> levelsOk s1"
    using assms(4) by (simp_all add: callbackPost_def)
  have b: "out2 = clipFrames s1 ?oc (copied s1 n2) @ replicate (nat n2 - copied s1 n2) ?z"
    "mPlaybackBuffer s2 = mPlaybackBuffer s1"
    "mPlaybackNumFrames s2 = mPlaybackNumFrames s1"
    "mPlaybackChannelCount s2 = mPlaybackChannelCount s1"
    "mPlaybackSampleRate s2 = mPlaybackSampleRate s1"
    "mLoopPlayback s2 = mLoopPlayback s1"
    "mPlaybackPosition s2 = cursorAfter s1 (copied s1 n2)"
    "mPlayedFrameCount s2 = mPlayedFrameCount s1 + int (copied s1 n2)"
    "mPlayedRecording s2 = appendFrames (clipFrames s1 ?oc (copied s1 n2)) (mPlayedRecording s1)"
    "mRecordedFrameCount s2 = mRecordedFrameCount s1 + m2"
    "mNumInputChannels s2 = mNumInputChannels s1"
    "(mPeakDetectors s2 = None) = (mPeakDetectors s1 = None)"
    "clipOk s2" "detectorsOk s2"
    "0 \<le> decay \<longrightarrow> levelsOk s1 \<longrightarrow> levelsOk s2"
    using assms(5) by (simp_all add: callbackPost_def)
  have c: "copied s n1 + copied s1 n2 = copied s (n1 + n2)"
    by (rule copied_compose [OF assms(1,2,3) a(6,3,7,2)])
  have f: "clipFrames s ?oc (copied s n1) @ clipFrames s1 ?oc (copied s1 n2)
      = clipFrames s ?oc (copied s (n1 + n2))"
    unfolding c [symmetric] by (rule clipFrames_compose [OF a(6,3,7,2,4)])
  have p: "cursorAfter s1 (copied s1 n2) = cursorAfter s (copied s (n1 + n2))"
    unfolding c [symmetric] by (rule cursorAfter_compose [OF a(6,3,7)])
  have le1: "copied s n1 \<le> nat n1" and le2: "copied s1 n2 \<le> nat n2"
    by (rule copied_le)+
  have out: "out1 @ out2 = clipFrames s ?oc (copied s (n1 + n2))
      @ replicate (nat (n1 + n2) - copied s (n1 + n2)) ?z"
  proof (cases "copied s n1 < nat n1")
    case True
    have z: "copied s1 n2 = 0"
      by (rule copied_short [OF assms(1) True a(6,3,7,2)])
    have "copied s (n1 + n2) = copied s n1" using c z by simp
    moreover have "nat n1 - copied s n1 + nat n2 = nat (n1 + n2) - copied s n1"
      using True assms(2,3) by arith
    ultimately show ?thesis
      unfolding a(1) b(1) z by (simp add: clipFrames_def replicate_add [symmetric])
  next
    case False
    then have e: "nat n1 - copied s n1 = 0" by simp
    have "nat n2 - copied s1 n2 = nat (n1 + n2) - (copied s n1 + copied s1 n2)"
      using False le1 le2 assms(2,3) by arith
    then show ?thesis
      unfolding a(1) b(1) e c using f by simp
  qed
  show ?thesis
    unfolding callbackPost_def
  proof (intro conjI impI)
    show "out1 @ out2 = clipFrames s ?oc (copied s (n1 + n2))
        @ replicate (nat (n1 + n2) - copied s (n1 + n2)) ?z" by (rule out)
    show "mPlaybackPosition s2 = cursorAfter s (copied s (n1 + n2))"
      unfolding b(7) by (rule p)
    show "mPlayedFrameCount s2 = mPlayedFrameCount s + int (copied s (n1 + n2))"
      unfolding b(8) a(8) c [symmetric] by simp
    show "mPlayedRecording s2 =
        appendFrames (clipFrames s ?oc (copied s (n1 + n2))) (mPlayedRecording s)"
      unfolding b(9) a(9) appendFrames_append f ..
    show "mRecordedFrameCount s2 = mRecordedFrameCount s + (m1 + m2)"
      unfolding b(10) a(10) by simp
    show "levelsOk s2" if "0 \<le> decay" "levelsOk s"
      using that a(13) b(15) by simp
    show "(mPeakDetectors s2 = None) = (mPeakDetectors s = None)"
      unfolding b(12) by (rule a(12))
  qed (simp_all add: a b)
qed

lemma exec_callbacks_post:
  assumes "clipOk s" "detectorsOk s" "requestsOk rs" "0 \<le> outputChannelCount cfg"
  shows "\<exists>s' outs. execAll decay cfg (callbacks rs) s = Some (s', outs)
          \<and> callbackPost cfg decay s (inputTotal rs) (outputTotal rs) s' outs"
  using assms
proof (induction rs arbitrary: s rule: callbacks.induct)
  case 1
  then show ?case
    by (intro exI [of _ s] exI [of _ "[]"]) (simp add: callbackPost_refl)
next
  case (2 inputData numInputFrames numOutputFrames rs)
  have nn: "0 \<le> numInputFrames" "0 \<le> numOutputFrames" "requestsOk rs"
    using "2.prems"(3) by simp_all
  obtain s1 out1 where first:
      "onBothStreamsReadyFloat decay cfg inputData numInputFrames numOutputFrames s
         = Some (Continue, s1, out1)"
      "callbackPost cfg decay s numInputFrames numOutputFrames s1 out1"
    using callback_post [OF "2.prems"(1,2) nn(1,2) "2.prems"(4), of decay inputData]
    by (elim exE conjE) (rule that)
  have ok1: "clipOk s1" "detectorsOk s1"
    using first(2) by (simp_all add: callbackPost_def)
  obtain s2 outs where rest:
      "execAll decay cfg (callbacks rs) s1 = Some (s2, outs)"
      "callbackPost cfg decay s1 (inputTotal rs) (outputTotal rs) s2 outs"
    using "2.IH" [OF ok1 nn(3) "2.prems"(4)] by (elim exE conjE) (rule that)
  have "callbackPost cfg decay s (numInputFrames + inputTotal rs) (numOutputFrames + outputTotal rs)
      s2 (out1 @ outs)"
    by (rule callbackPost_compose [OF "2.prems"(1) nn(2) outputTotal_nonneg [OF nn(3)] first(2) rest(2)])
  then show ?case
    by (intro exI [of _ s2] exI [of _ "out1 @ outs"]) (simp add: first(1) rest(1))
qed

subsection \<open>The concrete objects\<close>

lemma shortClip_ok: "clipOk shortClip" "detectorsOk shortClip"
  by (simp_all add: shortClip_def FullDuplexHfpLoopback_new_def clipOk_def detectorsOk_def
        INT32_MAX_def)

lemma new_ok: "clipOk FullDuplexHfpLoopback_new" "detectorsOk FullDuplexHfpLoopback_new"
  "levelsOk FullDuplexHfpLoopback_new"
  by (simp_all add: FullDuplexHfpLoopback_new_def clipOk_def detectorsOk_def levelsOk_def
        INT32_MAX_def)

lemma startedSession_ok: "clipOk startedSession" "detectorsOk startedSession"
  by (simp_all add: startedSession_def FullDuplexHfpLoopback_new_def clipOk_def detectorsOk_def
        INT32_MAX_def)

lemma start_stereo48k_new: "start stereo48k FullDuplexHfpLoopback_new = Some startedSession"
  by (simp add: start_def stereo48k_def startedSession_def FullDuplexHfpLoopback_new_def
        SECONDS_TO_RECORD_HFP_def numeral_eq_Suc)


lemma twoFrameClip_ok: "clipOk twoFrameClip" "detectorsOk twoFrameClip"
  by (simp_all add: twoFrameClip_def FullDuplexHfpLoopback_new_def clipOk_def detectorsOk_def
        INT32_MAX_def)

lemma twoFrameClip_load:
  "loadAudioData (Some halfSamples) 2 1 48000 FullDuplexHfpLoopback_new = Some (0, twoFrameClip)"
  by (simp add: loadAudioData_def INT32_MAX_def twoFrameClip_def FullDuplexHfpLoopback_new_def
        halfSamples_def numeral_eq_Suc upt_rec)

lemma loadedSession_ok: "clipOk loadedSession" "detectorsOk loadedSession"
  by (simp_all add: loadedSession_def startedSession_def FullDuplexHfpLoopback_new_def
        clipOk_def detectorsOk_def INT32_MAX_def)

lemma endingSession_ok: "clipOk endingSession" "detectorsOk endingSession"
  by (simp_all add: endingSession_def startedSession_def FullDuplexHfpLoopback_new_def
        clipOk_def detectorsOk_def INT32_MAX_def)

lemma endingSession_reached:
  "start stereo48k FullDuplexHfpLoopback_new = Some startedSession
   \<and> loadAudioData (Some rampSamples) 3 1 48000 startedSession
       = Some (0, startedSession\<lparr>mPlaybackBuffer := [1 / 4, 1 / 2, 3 / 4], mPlaybackNumFrames := 3\<rparr>)
   \<and> setLoopPlayback False
        (startedSession\<lparr>mPlaybackBuffer := [1 / 4, 1 / 2, 3 / 4], mPlaybackNumFrames := 3\<rparr>)
       = endingSession"
proof -
  have "loadAudioData (Some rampSamples) 3 1 48000 startedSession
       = Some (0, startedSession\<lparr>mPlaybackBuffer := [1 / 4, 1 / 2, 3 / 4], mPlaybackNumFrames := 3\<rparr>)"
    by (simp add: loadAudioData_def INT32_MAX_def startedSession_def FullDuplexHfpLoopback_new_def
          rampSamples_def numeral_eq_Suc upt_rec)
  moreover have "setLoopPlayback False
        (startedSession\<lparr>mPlaybackBuffer := [1 / 4, 1 / 2, 3 / 4], mPlaybackNumFrames := 3\<rparr>)
       = endingSession"
    by (simp add: setLoopPlayback_def endingSession_def)
  ultimately show ?thesis
    using start_stereo48k_new by (intro conjI)
qed

subsection \<open>Silence without a clip\<close>

lemma callback_without_clip:
  assumes "mPlaybackBuffer s = [] \<or> mPlaybackNumFrames s = 0"
    and "detectorsOk s" and "0 \<le> numOutputFrames" and "0 \<le> outputChannelCount cfg"
  shows "\<exists>rr pd. onBothStreamsReadyFloat decay cfg inputData numInputFrames numOutputFrames s =
      Some (Continue,
        s\<lparr>mRecordedRecording := rr, mPeakDetectors := pd,
          mRecordedFrameCount := mRecordedFrameCount s + int (nat numInputFrames)\<rparr>,
        replicate (nat numOutputFrames) (replicate (nat (outputChannelCount cfg)) 0))"
proof -
  have out: "processOutput cfg numOutputFrames s =
      Some (s, replicate (nat numOutputFrames) (replicate (nat (outputChannelCount cfg)) 0))"
    using assms(1) memsetFrames_nonneg [OF assms(3,4)] by (simp add: processOutput_def)
  have "\<exists>rr pd. inputLoop decay (inputChannelCount cfg) inputData numInputFrames 0 s =
         Some (s\<lparr>mRecordedRecording := rr, mPeakDetectors := pd,
                 mRecordedFrameCount := mRecordedFrameCount s + int (nat numInputFrames)\<rparr>)
      \<and> detectorsOk (s\<lparr>mPeakDetectors := pd\<rparr>)
      \<and> (pd = None) = (mPeakDetectors s = None)
      \<and> (0 \<le> decay \<longrightarrow> levelsOk s \<longrightarrow> levelsOk (s\<lparr>mPeakDetectors := pd\<rparr>))"
    using inputLoop_ok [OF assms(2), of numInputFrames 0 "nat numInputFrames" decay
        "inputChannelCount cfg" inputData]
    by simp
  then obtain rr pd where
    "inputLoop decay (inputChannelCount cfg) inputData numInputFrames 0 s =
         Some (s\<lparr>mRecordedRecording := rr, mPeakDetectors := pd,
                 mRecordedFrameCount := mRecordedFrameCount s + int (nat numInputFrames)\<rparr>)"
    by (elim exE conjE) (rule that)
  then show ?thesis
    using out by (intro exI [of _ rr] exI [of _ pd]) (simp add: onBothStreamsReadyFloat_def)
qed

text \<open>
  C5. Without a clip (the sample buffer is empty, or the frame count is 0) a callback
  asked for \<open>n\<close> output frames returns, and every frame of its output block is all zeros,
  for every \<open>n \<ge> 0\<close>.
\<close>

theorem C5_silence_without_clip:
  assumes "mPlaybackBuffer s = [] \<or> mPlaybackNumFrames s = 0"
    and "detectorsOk s" and "0 \<le> numOutputFrames" and "0 \<le> outputChannelCount cfg"
  shows "\<exists>s'. onBothStreamsReadyFloat decay cfg inputData numInputFrames numOutputFrames s =
      Some (Continue, s',
        replicate (nat numOutputFrames) (replicate (nat (outputChannelCount cfg)) 0))"
proof -
  obtain rr pd where "onBothStreamsReadyFloat decay cfg inputData numInputFrames numOutputFrames s =
      Some (Continue,
        s\<lparr>mRecordedRecording := rr, mPeakDetectors := pd,
          mRecordedFrameCount := mRecordedFrameCount s + int (nat numInputFrames)\<rparr>,
        replicate (nat numOutputFrames) (replicate (nat (outputChannelCount cfg)) 0))"
    using callback_without_clip [OF assms, of decay inputData numInputFrames]
    by (elim exE) (rule that)
  then show ?thesis by (rule exI)
qed

theorem C5_silence_without_clip_witness:
  "(mPlaybackBuffer FullDuplexHfpLoopback_new = [] \<or> mPlaybackNumFrames FullDuplexHfpLoopback_new = 0)
   \<and> detectorsOk FullDuplexHfpLoopback_new
   \<and> (\<exists>s'. onBothStreamsReadyFloat (1 / 2) stereo48k silentInput 4 3 FullDuplexHfpLoopback_new =
        Some (Continue, s', [[0, 0], [0, 0], [0, 0]]))"
proof -
  have h1: "mPlaybackBuffer FullDuplexHfpLoopback_new = [] \<or> mPlaybackNumFrames FullDuplexHfpLoopback_new = 0"
    by (simp add: FullDuplexHfpLoopback_new_def)
  have h2: "detectorsOk FullDuplexHfpLoopback_new"
    by (simp add: detectorsOk_def FullDuplexHfpLoopback_new_def)
  have h3: "(0::int) \<le> 3" by simp
  have h4: "0 \<le> outputChannelCount stereo48k" by (simp add: stereo48k_def)
  have "replicate (nat 3) (replicate (nat (outputChannelCount stereo48k)) (0::real))
      = [[0, 0], [0, 0], [0, 0]]"
    by (simp add: stereo48k_def numeral_eq_Suc)
  then show ?thesis
    using h1 h2 C5_silence_without_clip [OF h1 h2 h3 h4, of "1 / 2" silentInput 4] by simp
qed

subsection \<open>The frame counters\<close>

lemma copied_int:
  assumes "clipOk s" "0 \<le> n"
  shows "int (copied s n) =
     (if mPlaybackBuffer s = [] \<or> mPlaybackNumFrames s = 0 then 0
      else if mLoopPlayback s then n
      else min n (mPlaybackNumFrames s - mPlaybackPosition s))"
proof -
  have "mPlaybackPosition s \<le> mPlaybackNumFrames s"
    using assms(1) by (simp add: clipOk_def)
  then have "int (min (nat n) (nat (mPlaybackNumFrames s - mPlaybackPosition s)))
      = min n (mPlaybackNumFrames s - mPlaybackPosition s)"
    using assms(2) by arith
  then show ?thesis
    using assms(2) by (simp add: copied_def)
qed

lemma length_clipFrames [simp]: "length (clipFrames s outCh c) = c"
  by (simp add: clipFrames_def)

lemma callbackPost_length:
  assumes "callbackPost cfg decay s m n s' out" "0 \<le> n"
  shows "int (length out) = n"
proof -
  have "out = clipFrames s (outputChannelCount cfg) (copied s n)
             @ replicate (nat n - copied s n) (replicate (nat (outputChannelCount cfg)) 0)"
    using assms(1) by (simp add: callbackPost_def)
  then have "length out = copied s n + (nat n - copied s n)" by simp
  then show ?thesis using copied_le [of s n] assms(2) by simp
qed

text \<open>
  C1, as the code has it. Over any run of callbacks (each with non-negative frame
  counts) the run returns, it writes as many output frames as were asked for, and
  \<^verbatim>\<open>mRecordedFrameCount\<close> grows by exactly the number of input frames. \<^verbatim>\<open>mPlayedFrameCount\<close>
  grows by the number of frames copied from the clip: by nothing when no clip is loaded,
  by the number of output frames when looping is on, and by no more than the frames left
  before the end of the clip when looping is off. Frames of silence are not counted.
  Neither counter decreases.
\<close>

theorem C1_frame_counters:
  assumes "clipOk s" "detectorsOk s" "requestsOk rs" "0 \<le> outputChannelCount cfg"
  shows "\<exists>s' outs. execAll decay cfg (callbacks rs) s = Some (s', outs)
     \<and> int (length outs) = outputTotal rs
     \<and> mRecordedFrameCount s' = mRecordedFrameCount s + inputTotal rs
     \<and> mPlayedFrameCount s' = mPlayedFrameCount s +
          (if mPlaybackBuffer s = [] \<or> mPlaybackNumFrames s = 0 then 0
           else if mLoopPlayback s then outputTotal rs
           else min (outputTotal rs) (mPlaybackNumFrames s - mPlaybackPosition s))
     \<and> mPlayedFrameCount s \<le> mPlayedFrameCount s'
     \<and> mRecordedFrameCount s \<le> mRecordedFrameCount s'"
proof -
  obtain s' outs where run: "execAll decay cfg (callbacks rs) s = Some (s', outs)"
    and post: "callbackPost cfg decay s (inputTotal rs) (outputTotal rs) s' outs"
    using exec_callbacks_post [OF assms, of decay] by (elim exE conjE) (rule that)
  have tn: "0 \<le> outputTotal rs" and tm: "0 \<le> inputTotal rs"
    using assms(3) by (simp_all add: outputTotal_nonneg inputTotal_nonneg)
  have len: "int (length outs) = outputTotal rs"
    by (rule callbackPost_length [OF post tn])
  have rec: "mRecordedFrameCount s' = mRecordedFrameCount s + inputTotal rs"
    using post by (simp add: callbackPost_def)
  have "mPlayedFrameCount s' = mPlayedFrameCount s + int (copied s (outputTotal rs))"
    using post by (simp add: callbackPost_def)
  then have played: "mPlayedFrameCount s' = mPlayedFrameCount s +
          (if mPlaybackBuffer s = [] \<or> mPlaybackNumFrames s = 0 then 0
           else if mLoopPlayback s then outputTotal rs
           else min (outputTotal rs) (mPlaybackNumFrames s - mPlaybackPosition s))"
    by (simp only: copied_int [OF assms(1) tn])
  have mono: "mPlayedFrameCount s \<le> mPlayedFrameCount s'"
    using \<open>mPlayedFrameCount s' = mPlayedFrameCount s + int (copied s (outputTotal rs))\<close> by simp
  have mono': "mRecordedFrameCount s \<le> mRecordedFrameCount s'"
    using rec tm by simp
  show ?thesis
    using run len rec played mono mono' by (intro exI [of _ s'] exI [of _ outs] conjI)
qed

theorem C1_frame_counters_witness:
  "clipOk shortClip \<and> detectorsOk shortClip
   \<and> requestsOk [(silentInput, 1, 2), (silentInput, 4, 2)]
   \<and> 0 \<le> outputChannelCount stereo48k
   \<and> (\<exists>s' outs.
        execAll 1 stereo48k (callbacks [(silentInput, 1, 2), (silentInput, 4, 2)]) shortClip
          = Some (s', outs)
        \<and> int (length outs) = 4
        \<and> mRecordedFrameCount s' = 5
        \<and> mPlayedFrameCount s' = 3)"
proof -
  have h3: "requestsOk [(silentInput, 1, 2), (silentInput, 4, 2)]" by simp
  have h4: "0 \<le> outputChannelCount stereo48k" by (simp add: stereo48k_def)
  have f: "mRecordedFrameCount shortClip = 0" "mPlayedFrameCount shortClip = 0"
    "mPlaybackBuffer shortClip \<noteq> []" "mPlaybackNumFrames shortClip = 3"
    "\<not> mLoopPlayback shortClip" "mPlaybackPosition shortClip = 0"
    by (simp_all add: shortClip_def FullDuplexHfpLoopback_new_def)
  obtain s' outs where
    "execAll 1 stereo48k (callbacks [(silentInput, 1, 2), (silentInput, 4, 2)]) shortClip
       = Some (s', outs)"
    "int (length outs) = outputTotal [(silentInput, 1, 2), (silentInput, 4, 2)]"
    "mRecordedFrameCount s' = mRecordedFrameCount shortClip
       + inputTotal [(silentInput, 1, 2), (silentInput, 4, 2)]"
    "mPlayedFrameCount s' = mPlayedFrameCount shortClip +
          (if mPlaybackBuffer shortClip = [] \<or> mPlaybackNumFrames shortClip = 0 then 0
           else if mLoopPlayback shortClip
           then outputTotal [(silentInput, 1, 2), (silentInput, 4, 2)]
           else min (outputTotal [(silentInput, 1, 2), (silentInput, 4, 2)])
                  (mPlaybackNumFrames shortClip - mPlaybackPosition shortClip))"
    using C1_frame_counters [OF shortClip_ok h3 h4, of 1] by (elim exE conjE) (rule that)
  then have "execAll 1 stereo48k (callbacks [(silentInput, 1, 2), (silentInput, 4, 2)]) shortClip
          = Some (s', outs)
        \<and> int (length outs) = 4 \<and> mRecordedFrameCount s' = 5 \<and> mPlayedFrameCount s' = 3"
    by (simp add: f)
  then have "\<exists>s' outs.
        execAll 1 stereo48k (callbacks [(silentInput, 1, 2), (silentInput, 4, 2)]) shortClip
          = Some (s', outs)
        \<and> int (length outs) = 4 \<and> mRecordedFrameCount s' = 5 \<and> mPlayedFrameCount s' = 3"
    by (intro exI)
  then show ?thesis
    using shortClip_ok h3 h4 by (intro conjI)
qed

theorem C1_silence_is_not_counted_counterexample:
  "start stereo48k FullDuplexHfpLoopback_new = Some startedSession
   \<and> onBothStreamsReadyFloat 1 stereo48k silentInput 0 1 startedSession
       = Some (Continue, startedSession, [[0, 0]])
   \<and> getPlayedFrameCount startedSession = 0"
proof -
  have "processOutput stereo48k 1 startedSession = Some (startedSession, [[0, 0]])"
    by (simp add: processOutput_def memsetFrames_def startedSession_def
          FullDuplexHfpLoopback_new_def stereo48k_def numeral_eq_Suc)
  moreover have "inputLoop 1 (inputChannelCount stereo48k) silentInput 0 0 startedSession
      = Some startedSession"
    by (simp add: inputLoop.simps)
  ultimately have "onBothStreamsReadyFloat 1 stereo48k silentInput 0 1 startedSession
       = Some (Continue, startedSession, [[0, 0]])"
    by (simp add: onBothStreamsReadyFloat_def)
  moreover have "getPlayedFrameCount startedSession = 0"
    by (simp add: getPlayedFrameCount_def startedSession_def FullDuplexHfpLoopback_new_def)
  ultimately show ?thesis
    using start_stereo48k_new by (intro conjI)
qed

subsection \<open>The played recording\<close>

lemma callbackPost_split:
  assumes "callbackPost cfg decay s m n s' out"
  shows "take (copied s n) out = clipFrames s (outputChannelCount cfg) (copied s n)"
    and "drop (copied s n) out
      = replicate (nat n - copied s n) (replicate (nat (outputChannelCount cfg)) 0)"
proof -
  have "out = clipFrames s (outputChannelCount cfg) (copied s n)
             @ replicate (nat n - copied s n) (replicate (nat (outputChannelCount cfg)) 0)"
    using assms by (simp add: callbackPost_def)
  then show "take (copied s n) out = clipFrames s (outputChannelCount cfg) (copied s n)"
    and "drop (copied s n) out
      = replicate (nat n - copied s n) (replicate (nat (outputChannelCount cfg)) 0)"
    by simp_all
qed

text \<open>
  C2, as the code has it. A callback appends to the played recording exactly the frames
  it copied from the clip, in order: they are the first \<open>c\<close> frames of the output block,
  \<open>c\<close> being the growth of \<^verbatim>\<open>mPlayedFrameCount\<close>. The other frames of the block are the
  silence written by \<^verbatim>\<open>memset\<close>, and they are not appended. Before \<^verbatim>\<open>start()\<close> there is
  no recording and none is made.
\<close>

theorem C2_played_recording:
  assumes "clipOk s" "detectorsOk s" "0 \<le> numOutputFrames" "0 \<le> outputChannelCount cfg"
  shows "\<exists>s' out c.
       onBothStreamsReadyFloat decay cfg inputData numInputFrames numOutputFrames s
         = Some (Continue, s', out)
     \<and> int c = mPlayedFrameCount s' - mPlayedFrameCount s
     \<and> int c = (if mPlaybackBuffer s = [] \<or> mPlaybackNumFrames s = 0 then 0
                else if mLoopPlayback s then numOutputFrames
                else min numOutputFrames (mPlaybackNumFrames s - mPlaybackPosition s))
     \<and> mPlayedRecording s'
         = map_option (\<lambda>r. r\<lparr>recFrames := recFrames r @ take c out\<rparr>) (mPlayedRecording s)
     \<and> drop c out
         = replicate (nat numOutputFrames - c) (replicate (nat (outputChannelCount cfg)) 0)"
proof -
  obtain s' out where
    run: "onBothStreamsReadyFloat decay cfg inputData numInputFrames numOutputFrames s
         = Some (Continue, s', out)"
    and post: "callbackPost cfg decay s (int (nat numInputFrames)) numOutputFrames s' out"
    using callback_post_any [OF assms, of decay inputData numInputFrames]
    by (elim exE conjE) (rule that)
  let ?c = "copied s numOutputFrames"
  have played: "int ?c = mPlayedFrameCount s' - mPlayedFrameCount s"
    using post by (simp add: callbackPost_def)
  have formula: "int ?c = (if mPlaybackBuffer s = [] \<or> mPlaybackNumFrames s = 0 then 0
                else if mLoopPlayback s then numOutputFrames
                else min numOutputFrames (mPlaybackNumFrames s - mPlaybackPosition s))"
    by (rule copied_int [OF assms(1,3)])
  have "mPlayedRecording s'
      = appendFrames (clipFrames s (outputChannelCount cfg) ?c) (mPlayedRecording s)"
    using post by (simp add: callbackPost_def)
  then have rec: "mPlayedRecording s'
         = map_option (\<lambda>r. r\<lparr>recFrames := recFrames r @ take ?c out\<rparr>) (mPlayedRecording s)"
    by (simp only: callbackPost_split(1) [OF post] appendFrames_def)
  have rest: "drop ?c out
         = replicate (nat numOutputFrames - ?c) (replicate (nat (outputChannelCount cfg)) 0)"
    by (rule callbackPost_split(2) [OF post])
  show ?thesis
    using run played formula rec rest by (intro exI [of _ s'] exI [of _ out] exI [of _ ?c] conjI)
qed

theorem C2_played_recording_witness:
  "clipOk loadedSession \<and> detectorsOk loadedSession
   \<and> clipOk endingSession \<and> detectorsOk endingSession
   \<and> 0 \<le> outputChannelCount stereo48k
   \<and> (\<exists>s' out c.
       onBothStreamsReadyFloat 1 stereo48k silentInput 0 3 loadedSession = Some (Continue, s', out)
     \<and> c = (3::nat)
     \<and> out = [[1 / 2, 1 / 2], [1 / 2, 1 / 2], [1 / 2, 1 / 2]]
     \<and> drop c out = []
     \<and> map_option recFrames (mPlayedRecording loadedSession) = Some []
     \<and> map_option recFrames (mPlayedRecording s')
         = Some [[1 / 2, 1 / 2], [1 / 2, 1 / 2], [1 / 2, 1 / 2]])
   \<and> (\<exists>s' out c.
       onBothStreamsReadyFloat 1 stereo48k silentInput 0 4 endingSession = Some (Continue, s', out)
     \<and> c = (3::nat)
     \<and> out = [[1 / 4, 1 / 4], [1 / 2, 1 / 2], [3 / 4, 3 / 4], [0, 0]]
     \<and> drop c out = [[0, 0]]
     \<and> map_option recFrames (mPlayedRecording endingSession) = Some []
     \<and> map_option recFrames (mPlayedRecording s')
         = Some [[1 / 4, 1 / 4], [1 / 2, 1 / 2], [3 / 4, 3 / 4]])"
proof -
  have h3: "(0::int) \<le> 3" and h4: "(0::int) \<le> 4" by simp_all
  have h5: "0 \<le> outputChannelCount stereo48k" by (simp add: stereo48k_def)
  have up: "[0..<3] = [0, 1, 2]" by (simp add: numeral_eq_Suc upt_rec)
  have up2: "[0..<2] = [0, Suc 0]" by (simp add: numeral_eq_Suc upt_rec)
  have fl: "mPlaybackBuffer loadedSession = [1 / 2, 1 / 2]" "mPlaybackNumFrames loadedSession = 2"
    "mPlaybackChannelCount loadedSession = 1" "mLoopPlayback loadedSession"
    "mPlaybackPosition loadedSession = 0"
    "mPlayedRecording loadedSession = Some (MultiChannelRecording_new 2 14400000)"
    by (simp_all add: loadedSession_def startedSession_def FullDuplexHfpLoopback_new_def)
  have fe: "mPlaybackBuffer endingSession = [1 / 4, 1 / 2, 3 / 4]"
    "mPlaybackNumFrames endingSession = 3"
    "mPlaybackChannelCount endingSession = 1" "\<not> mLoopPlayback endingSession"
    "mPlaybackPosition endingSession = 0"
    "mPlayedRecording endingSession = Some (MultiChannelRecording_new 2 14400000)"
    by (simp_all add: endingSession_def startedSession_def FullDuplexHfpLoopback_new_def)
  have oc: "outputChannelCount stereo48k = 2" by (simp add: stereo48k_def)

  obtain s1 out1 c1 where
    a1: "onBothStreamsReadyFloat 1 stereo48k silentInput 0 3 loadedSession = Some (Continue, s1, out1)"
    and b1: "int c1 = (if mPlaybackBuffer loadedSession = [] \<or> mPlaybackNumFrames loadedSession = 0 then 0
                else if mLoopPlayback loadedSession then 3
                else min 3 (mPlaybackNumFrames loadedSession - mPlaybackPosition loadedSession))"
    and r1: "mPlayedRecording s1
         = map_option (\<lambda>r. r\<lparr>recFrames := recFrames r @ take c1 out1\<rparr>) (mPlayedRecording loadedSession)"
    and d1: "drop c1 out1 = replicate (nat 3 - c1) (replicate (nat (outputChannelCount stereo48k)) 0)"
    using C2_played_recording [OF loadedSession_ok h3 h5, of 1 silentInput 0]
    by (elim exE conjE) (rule that)
  obtain t1 o1 where
    run1: "onBothStreamsReadyFloat 1 stereo48k silentInput 0 3 loadedSession = Some (Continue, t1, o1)"
    and post1: "callbackPost stereo48k 1 loadedSession (int (nat 0)) 3 t1 o1"
    using callback_post_any [OF loadedSession_ok h3 h5, of 1 silentInput 0]
    by (elim exE conjE) (rule that)
  have c1: "c1 = 3" using b1 by (simp add: fl)
  have cp1: "copied loadedSession 3 = 3" by (simp add: copied_def fl)
  have "o1 = [[1 / 2, 1 / 2], [1 / 2, 1 / 2], [1 / 2, 1 / 2]]"
    using post1 unfolding callbackPost_def cp1
    by (simp add: clipFrames_def specFrame_def cursorAt_def fl oc up up2)
  moreover have "o1 = out1" using a1 run1 by simp
  ultimately have out1: "out1 = [[1 / 2, 1 / 2], [1 / 2, 1 / 2], [1 / 2, 1 / 2]]" by simp
  have rest1: "drop c1 out1 = []" unfolding c1 out1 by simp
  have before1: "map_option recFrames (mPlayedRecording loadedSession) = Some []"
    by (simp add: fl MultiChannelRecording_new_def)
  have after1: "map_option recFrames (mPlayedRecording s1)
         = Some [[1 / 2, 1 / 2], [1 / 2, 1 / 2], [1 / 2, 1 / 2]]"
    using r1 unfolding c1 out1 by (simp add: fl MultiChannelRecording_new_def)
  have first: "\<exists>s' out c.
       onBothStreamsReadyFloat 1 stereo48k silentInput 0 3 loadedSession = Some (Continue, s', out)
     \<and> c = (3::nat)
     \<and> out = [[1 / 2, 1 / 2], [1 / 2, 1 / 2], [1 / 2, 1 / 2]]
     \<and> drop c out = []
     \<and> map_option recFrames (mPlayedRecording loadedSession) = Some []
     \<and> map_option recFrames (mPlayedRecording s')
         = Some [[1 / 2, 1 / 2], [1 / 2, 1 / 2], [1 / 2, 1 / 2]]"
    using a1 c1 out1 rest1 before1 after1
    by (intro exI [of _ s1] exI [of _ out1] exI [of _ c1] conjI)

  obtain s2 out2 c2 where
    a2: "onBothStreamsReadyFloat 1 stereo48k silentInput 0 4 endingSession = Some (Continue, s2, out2)"
    and b2: "int c2 = (if mPlaybackBuffer endingSession = [] \<or> mPlaybackNumFrames endingSession = 0 then 0
                else if mLoopPlayback endingSession then 4
                else min 4 (mPlaybackNumFrames endingSession - mPlaybackPosition endingSession))"
    and r2: "mPlayedRecording s2
         = map_option (\<lambda>r. r\<lparr>recFrames := recFrames r @ take c2 out2\<rparr>) (mPlayedRecording endingSession)"
    and d2: "drop c2 out2 = replicate (nat 4 - c2) (replicate (nat (outputChannelCount stereo48k)) 0)"
    using C2_played_recording [OF endingSession_ok h4 h5, of 1 silentInput 0]
    by (elim exE conjE) (rule that)
  obtain t2 o2 where
    run2: "onBothStreamsReadyFloat 1 stereo48k silentInput 0 4 endingSession = Some (Continue, t2, o2)"
    and post2: "callbackPost stereo48k 1 endingSession (int (nat 0)) 4 t2 o2"
    using callback_post_any [OF endingSession_ok h4 h5, of 1 silentInput 0]
    by (elim exE conjE) (rule that)
  have c2: "c2 = 3" using b2 by (simp add: fe)
  have cp2: "copied endingSession 4 = 3" by (simp add: copied_def fe)
  have "o2 = [[1 / 4, 1 / 4], [1 / 2, 1 / 2], [3 / 4, 3 / 4], [0, 0]]"
    using post2 unfolding callbackPost_def cp2
    by (simp add: clipFrames_def specFrame_def cursorAt_def fe oc up up2 numeral_eq_Suc)
  moreover have "o2 = out2" using a2 run2 by simp
  ultimately have out2: "out2 = [[1 / 4, 1 / 4], [1 / 2, 1 / 2], [3 / 4, 3 / 4], [0, 0]]" by simp
  have rest2: "drop c2 out2 = [[0, 0]]" unfolding c2 out2 by simp
  have before2: "map_option recFrames (mPlayedRecording endingSession) = Some []"
    by (simp add: fe MultiChannelRecording_new_def)
  have after2: "map_option recFrames (mPlayedRecording s2)
         = Some [[1 / 4, 1 / 4], [1 / 2, 1 / 2], [3 / 4, 3 / 4]]"
    using r2 unfolding c2 out2 by (simp add: fe MultiChannelRecording_new_def)
  have second: "\<exists>s' out c.
       onBothStreamsReadyFloat 1 stereo48k silentInput 0 4 endingSession = Some (Continue, s', out)
     \<and> c = (3::nat)
     \<and> out = [[1 / 4, 1 / 4], [1 / 2, 1 / 2], [3 / 4, 3 / 4], [0, 0]]
     \<and> drop c out = [[0, 0]]
     \<and> map_option recFrames (mPlayedRecording endingSession) = Some []
     \<and> map_option recFrames (mPlayedRecording s')
         = Some [[1 / 4, 1 / 4], [1 / 2, 1 / 2], [3 / 4, 3 / 4]]"
    using a2 c2 out2 rest2 before2 after2
    by (intro exI [of _ s2] exI [of _ out2] exI [of _ c2] conjI)
  show ?thesis
    using loadedSession_ok endingSession_ok h5 first second by (intro conjI)
qed

theorem C2_silence_is_not_recorded_counterexample:
  "start stereo48k FullDuplexHfpLoopback_new = Some startedSession
   \<and> onBothStreamsReadyFloat 1 stereo48k silentInput 0 1 startedSession
       = Some (Continue, startedSession, [[0, 0]])
   \<and> map_option recFrames (mPlayedRecording startedSession) = Some []"
proof -
  have "processOutput stereo48k 1 startedSession = Some (startedSession, [[0, 0]])"
    by (simp add: processOutput_def memsetFrames_def startedSession_def
          FullDuplexHfpLoopback_new_def stereo48k_def numeral_eq_Suc)
  moreover have "inputLoop 1 (inputChannelCount stereo48k) silentInput 0 0 startedSession
      = Some startedSession"
    by (simp add: inputLoop.simps)
  ultimately have "onBothStreamsReadyFloat 1 stereo48k silentInput 0 1 startedSession
       = Some (Continue, startedSession, [[0, 0]])"
    by (simp add: onBothStreamsReadyFloat_def)
  moreover have "map_option recFrames (mPlayedRecording startedSession) = Some []"
    by (simp add: startedSession_def MultiChannelRecording_new_def)
  ultimately show ?thesis
    using start_stereo48k_new by (intro conjI)
qed

subsection \<open>Channel conversion\<close>

lemma cursorAt_inside:
  assumes "clipOk s" "j < copied s n"
  shows "0 \<le> cursorAt s j \<and> cursorAt s j < mPlaybackNumFrames s"
proof -
  have nf: "0 < mPlaybackNumFrames s"
    using assms by (intro copied_pos_clip [of s n]) simp_all
  show ?thesis
  proof (cases "mLoopPlayback s")
    case True
    then show ?thesis using nf by (simp add: cursorAt_def)
  next
    case False
    have "copied s n \<le> nat (mPlaybackNumFrames s - mPlaybackPosition s)"
      using False nf by (simp add: copied_def)
    then have "int j < mPlaybackNumFrames s - mPlaybackPosition s"
      using assms(2) by arith
    moreover have "0 \<le> mPlaybackPosition s" using assms(1) by (simp add: clipOk_def)
    ultimately show ?thesis using False by (simp add: cursorAt_def)
  qed
qed

lemma callbackPost_nth:
  assumes "callbackPost cfg decay s m n s' out" "j < copied s n"
  shows "out ! j = specFrame (mPlaybackBuffer s) (mPlaybackChannelCount s) (outputChannelCount cfg)
                     (cursorAt s j)"
proof -
  have "out = clipFrames s (outputChannelCount cfg) (copied s n)
             @ replicate (nat n - copied s n) (replicate (nat (outputChannelCount cfg)) 0)"
    using assms(1) by (simp add: callbackPost_def)
  then have "out ! j = clipFrames s (outputChannelCount cfg) (copied s n) ! j"
    using assms(2) by (simp add: nth_append)
  then show ?thesis using assms(2) by (simp add: clipFrames_def)
qed

lemma specFrame_nth:
  assumes "int ch < outCh"
  shows "specFrame buf channels outCh p ! ch = buf ! nat (p * channels + int ch mod channels)"
proof -
  have "ch < nat outCh" using assms by simp
  then show ?thesis by (simp add: specFrame_def)
qed

lemma specFrame_mono_to_stereo: "specFrame buf 1 2 p = [buf ! nat p, buf ! nat p]"
proof -
  have "[0..<nat 2] = [0, 1]" by (simp add: numeral_eq_Suc upt_rec)
  then show ?thesis by (simp add: specFrame_def)
qed

text \<open>
  C6. The frames a callback copies from the clip are the first frames of its output
  block, as many as \<^verbatim>\<open>mPlayedFrameCount\<close> grows by. The \<open>j\<close>-th of them is read with the
  cursor inside the clip, at position \<open>(cursor + j) mod F\<close> when looping is on and
  \<open>cursor + j\<close> when it is off, and its channel \<open>ch\<close> is the clip's sample at channel
  \<open>ch mod mPlaybackChannelCount\<close> of that frame. For a clip of one channel and an output
  of two, both channels of the frame are the clip's sample.
\<close>

theorem C6_channel_conversion:
  assumes "clipOk s" "detectorsOk s" "0 \<le> numOutputFrames" "0 \<le> outputChannelCount cfg"
  shows "\<exists>s' out.
       onBothStreamsReadyFloat decay cfg inputData numInputFrames numOutputFrames s
         = Some (Continue, s', out)
     \<and> (\<forall>j. int j < mPlayedFrameCount s' - mPlayedFrameCount s \<longrightarrow>
           (let cursor = (if mLoopPlayback s
                          then (mPlaybackPosition s + int j) mod mPlaybackNumFrames s
                          else mPlaybackPosition s + int j)
            in 0 \<le> cursor \<and> cursor < mPlaybackNumFrames s
             \<and> (\<forall>ch. int ch < outputChannelCount cfg \<longrightarrow>
                   out ! j ! ch = mPlaybackBuffer s !
                     nat (cursor * mPlaybackChannelCount s + int ch mod mPlaybackChannelCount s))
             \<and> (mPlaybackChannelCount s = 1 \<and> outputChannelCount cfg = 2 \<longrightarrow>
                   out ! j = [mPlaybackBuffer s ! nat cursor, mPlaybackBuffer s ! nat cursor])))"
proof -
  obtain s' out where
    run: "onBothStreamsReadyFloat decay cfg inputData numInputFrames numOutputFrames s
         = Some (Continue, s', out)"
    and post: "callbackPost cfg decay s (int (nat numInputFrames)) numOutputFrames s' out"
    using callback_post_any [OF assms, of decay inputData numInputFrames]
    by (elim exE conjE) (rule that)
  have played: "mPlayedFrameCount s' - mPlayedFrameCount s = int (copied s numOutputFrames)"
    using post by (simp add: callbackPost_def)
  have frames: "let cursor = (if mLoopPlayback s
                          then (mPlaybackPosition s + int j) mod mPlaybackNumFrames s
                          else mPlaybackPosition s + int j)
            in 0 \<le> cursor \<and> cursor < mPlaybackNumFrames s
             \<and> (\<forall>ch. int ch < outputChannelCount cfg \<longrightarrow>
                   out ! j ! ch = mPlaybackBuffer s !
                     nat (cursor * mPlaybackChannelCount s + int ch mod mPlaybackChannelCount s))
             \<and> (mPlaybackChannelCount s = 1 \<and> outputChannelCount cfg = 2 \<longrightarrow>
                   out ! j = [mPlaybackBuffer s ! nat cursor, mPlaybackBuffer s ! nat cursor])"
    if "int j < mPlayedFrameCount s' - mPlayedFrameCount s" for j
  proof -
    have j: "j < copied s numOutputFrames" using that played by simp
    have c: "cursorAt s j = (if mLoopPlayback s
                          then (mPlaybackPosition s + int j) mod mPlaybackNumFrames s
                          else mPlaybackPosition s + int j)"
      by (simp add: cursorAt_def)
    have fr: "out ! j = specFrame (mPlaybackBuffer s) (mPlaybackChannelCount s)
        (outputChannelCount cfg) (cursorAt s j)"
      by (rule callbackPost_nth [OF post j])
    have "0 \<le> cursorAt s j \<and> cursorAt s j < mPlaybackNumFrames s"
      by (rule cursorAt_inside [OF assms(1) j])
    moreover have "out ! j ! ch = mPlaybackBuffer s !
        nat (cursorAt s j * mPlaybackChannelCount s + int ch mod mPlaybackChannelCount s)"
      if "int ch < outputChannelCount cfg" for ch
      unfolding fr by (rule specFrame_nth [OF that])
    moreover have "out ! j = [mPlaybackBuffer s ! nat (cursorAt s j),
        mPlaybackBuffer s ! nat (cursorAt s j)]"
      if "mPlaybackChannelCount s = 1 \<and> outputChannelCount cfg = 2"
      using fr that by (simp add: specFrame_mono_to_stereo)
    ultimately show ?thesis
      unfolding c [symmetric] Let_def by blast
  qed
  show ?thesis
    using run frames by (intro exI [of _ s'] exI [of _ out] conjI allI impI)
qed

theorem C6_channel_conversion_witness:
  "clipOk shortClip \<and> detectorsOk shortClip \<and> 0 \<le> outputChannelCount stereo48k
   \<and> (\<exists>s' out.
       onBothStreamsReadyFloat 1 stereo48k silentInput 0 2 shortClip = Some (Continue, s', out)
     \<and> mPlayedFrameCount s' = 2
     \<and> out ! 1 ! 0 = 1 / 2 \<and> out ! 1 = [1 / 2, 1 / 2])"
proof -
  have h4: "(0::int) \<le> 2" by simp
  have h5: "0 \<le> outputChannelCount stereo48k" by (simp add: stereo48k_def)
  have f: "mPlayedFrameCount shortClip = 0" "mPlaybackBuffer shortClip = [1 / 4, 1 / 2, 3 / 4]"
    "mPlaybackNumFrames shortClip = 3" "mPlaybackChannelCount shortClip = 1"
    "\<not> mLoopPlayback shortClip" "mPlaybackPosition shortClip = 0"
    "outputChannelCount stereo48k = 2"
    by (simp_all add: shortClip_def FullDuplexHfpLoopback_new_def stereo48k_def)
  obtain s' out where
    run: "onBothStreamsReadyFloat 1 stereo48k silentInput 0 2 shortClip = Some (Continue, s', out)"
    and all: "\<forall>j. int j < mPlayedFrameCount s' - mPlayedFrameCount shortClip \<longrightarrow>
           (let cursor = (if mLoopPlayback shortClip
                          then (mPlaybackPosition shortClip + int j) mod mPlaybackNumFrames shortClip
                          else mPlaybackPosition shortClip + int j)
            in 0 \<le> cursor \<and> cursor < mPlaybackNumFrames shortClip
             \<and> (\<forall>ch. int ch < outputChannelCount stereo48k \<longrightarrow>
                   out ! j ! ch = mPlaybackBuffer shortClip !
                     nat (cursor * mPlaybackChannelCount shortClip
                            + int ch mod mPlaybackChannelCount shortClip))
             \<and> (mPlaybackChannelCount shortClip = 1 \<and> outputChannelCount stereo48k = 2 \<longrightarrow>
                   out ! j = [mPlaybackBuffer shortClip ! nat cursor,
                              mPlaybackBuffer shortClip ! nat cursor]))"
    using C6_channel_conversion [OF shortClip_ok h4 h5, of 1 silentInput 0]
    by (elim exE conjE) (rule that)
  obtain s2 out2 where
    run2: "onBothStreamsReadyFloat 1 stereo48k silentInput 0 2 shortClip = Some (Continue, s2, out2)"
    and post: "callbackPost stereo48k 1 shortClip (int (nat 0)) 2 s2 out2"
    using callback_post_any [OF shortClip_ok h4 h5, of 1 silentInput 0]
    by (elim exE conjE) (rule that)
  have "copied shortClip 2 = 2"
    by (simp add: copied_def f)
  then have "mPlayedFrameCount s2 = 2"
    using post by (simp add: callbackPost_def f)
  moreover have "s2 = s'" using run run2 by simp
  ultimately have played: "mPlayedFrameCount s' = 2"
    by simp
  have "int 1 < mPlayedFrameCount s' - mPlayedFrameCount shortClip"
    using played by (simp add: f)
  then have "let cursor = (if mLoopPlayback shortClip
                          then (mPlaybackPosition shortClip + int 1) mod mPlaybackNumFrames shortClip
                          else mPlaybackPosition shortClip + int 1)
            in 0 \<le> cursor \<and> cursor < mPlaybackNumFrames shortClip
             \<and> (\<forall>ch. int ch < outputChannelCount stereo48k \<longrightarrow>
                   out ! 1 ! ch = mPlaybackBuffer shortClip !
                     nat (cursor * mPlaybackChannelCount shortClip
                            + int ch mod mPlaybackChannelCount shortClip))
             \<and> (mPlaybackChannelCount shortClip = 1 \<and> outputChannelCount stereo48k = 2 \<longrightarrow>
                   out ! 1 = [mPlaybackBuffer shortClip ! nat cursor,
                              mPlaybackBuffer shortClip ! nat cursor])"
    using all by blast
  then have "out ! 1 = [1 / 2, 1 / 2]"
    by (simp add: f)
  then have "out ! 1 ! 0 = 1 / 2" "out ! 1 = [1 / 2, 1 / 2]"
    by simp_all
  then have "\<exists>s' out.
       onBothStreamsReadyFloat 1 stereo48k silentInput 0 2 shortClip = Some (Continue, s', out)
     \<and> mPlayedFrameCount s' = 2
     \<and> out ! 1 ! 0 = 1 / 2 \<and> out ! 1 = [1 / 2, 1 / 2]"
    using run played by (intro exI [of _ s'] exI [of _ out] conjI)
  then show ?thesis
    using shortClip_ok h5 by (intro conjI)
qed

subsection \<open>The end of the clip, looping off\<close>

lemma loadAudioData_valid:
  assumes "0 < numFrames" "0 < channelCount" "numFrames * channelCount \<le> INT32_MAX"
  shows "loadAudioData (Some samples) numFrames channelCount sampleRate s =
     Some (0, s\<lparr>mPlaybackBuffer := map samples [0..<nat (numFrames * channelCount)],
               mPlaybackNumFrames := numFrames,
               mPlaybackChannelCount := channelCount,
               mPlaybackSampleRate := sampleRate,
               mPlaybackPosition := 0\<rparr>)"
  using assms by (simp add: loadAudioData_def Let_def)




subsection \<open>Looping\<close>

lemma copied_looping:
  assumes "mLoopPlayback s" "0 < mPlaybackNumFrames s" "clipOk s"
  shows "copied s n = nat n"
proof -
  have "mPlaybackBuffer s \<noteq> []"
  proof
    assume "mPlaybackBuffer s = []"
    then have "int (length (mPlaybackBuffer s)) = 0"
      by simp
    then have "mPlaybackNumFrames s * mPlaybackChannelCount s = 0"
      using assms(3) unfolding clipOk_def by (elim conjE) (simp only:)
    moreover have "0 < mPlaybackNumFrames s * mPlaybackChannelCount s"
      using assms(2,3) by (intro mult_pos_pos) (simp_all add: clipOk_def)
    ultimately show False by auto
  qed
  then show ?thesis using assms(1,2) by (simp add: copied_def)
qed

lemma cursor_after_whole_laps:
  fixes nf k :: int
  assumes "0 < nf" "1 \<le> k"
  shows "(k * nf - 1) mod nf + 1 = nf"
proof -
  have "(k * nf - 1) mod nf = (nf - 1 + (k - 1) * nf) mod nf"
    by (simp add: algebra_simps)
  also have "\<dots> = (nf - 1) mod nf"
    by simp
  also have "\<dots> = nf - 1"
    using assms(1) by (intro mod_pos_pos_trivial) simp_all
  finally show ?thesis by simp
qed

text \<open>
  C3, as the code has it. With a clip of \<open>F > 0\<close> frames and looping on, a run of
  callbacks that asks for \<open>T\<close> output frames in total writes \<open>T\<close> frames, the \<open>j\<close>-th being
  the clip's frame \<open>(cursor + j) mod F\<close> under the channel rule: the frames cycle with
  period \<open>F\<close>, also inside one request longer than \<open>F\<close>. The cursor is wrapped only when
  the next frame is about to be copied, so after \<open>T > 0\<close> frames it is
  \<open>(cursor + T - 1) mod F + 1\<close>, a value in \<open>[1, F]\<close>: after \<open>k * F\<close> frames from cursor 0
  it is \<open>F\<close>, not 0.
\<close>

theorem C3_looping_cursor:
  assumes "clipOk s" "detectorsOk s" "requestsOk rs" "0 \<le> outputChannelCount cfg"
    and "mLoopPlayback s" "0 < mPlaybackNumFrames s"
  shows "\<exists>s' outs. execAll decay cfg (callbacks rs) s = Some (s', outs)
     \<and> outs = map (\<lambda>j. specFrame (mPlaybackBuffer s) (mPlaybackChannelCount s)
                        (outputChannelCount cfg)
                        ((mPlaybackPosition s + int j) mod mPlaybackNumFrames s))
                [0..<nat (outputTotal rs)]
     \<and> mPlaybackPosition s' =
         (if outputTotal rs = 0 then mPlaybackPosition s
          else (mPlaybackPosition s + outputTotal rs - 1) mod mPlaybackNumFrames s + 1)
     \<and> (\<forall>j. int j + mPlaybackNumFrames s < outputTotal rs \<longrightarrow>
           outs ! (j + nat (mPlaybackNumFrames s)) = outs ! j)
     \<and> (\<forall>k. 1 \<le> k \<and> mPlaybackPosition s = 0 \<and> outputTotal rs = k * mPlaybackNumFrames s \<longrightarrow>
           mPlaybackPosition s' = mPlaybackNumFrames s)"
proof -
  let ?nf = "mPlaybackNumFrames s"
  let ?p = "mPlaybackPosition s"
  let ?T = "outputTotal rs"
  let ?F = "\<lambda>j. specFrame (mPlaybackBuffer s) (mPlaybackChannelCount s)
                        (outputChannelCount cfg) ((?p + int j) mod ?nf)"
  obtain s' outs where run: "execAll decay cfg (callbacks rs) s = Some (s', outs)"
    and post: "callbackPost cfg decay s (inputTotal rs) ?T s' outs"
    using exec_callbacks_post [OF assms(1-4), of decay] by (elim exE conjE) (rule that)
  have tn: "0 \<le> ?T"
    using assms(3) by (rule outputTotal_nonneg)
  have c: "copied s ?T = nat ?T"
    by (rule copied_looping [OF assms(5,6,1)])
  have outs: "outs = map ?F [0..<nat ?T]"
    using post assms(5) unfolding callbackPost_def c by (simp add: clipFrames_def cursorAt_def)
  have "mPlaybackPosition s' = cursorAfter s (nat ?T)"
    using post unfolding callbackPost_def c by simp
  moreover have "int (nat ?T - 1) = ?T - 1" if "?T \<noteq> 0"
    using that tn by simp
  ultimately have pos: "mPlaybackPosition s' =
         (if ?T = 0 then ?p else (?p + ?T - 1) mod ?nf + 1)"
    using tn assms(5) by (simp add: cursorAfter_def cursorAt_def algebra_simps)
  have period: "outs ! (j + nat ?nf) = outs ! j" if "int j + ?nf < ?T" for j
  proof -
    have lt: "j + nat ?nf < nat ?T" "j < nat ?T"
      using that assms(6) by simp_all
    have "(?p + int (j + nat ?nf)) mod ?nf = (?p + int j + ?nf) mod ?nf"
      using assms(6) by (simp add: algebra_simps)
    also have "\<dots> = (?p + int j) mod ?nf"
      by simp
    finally show ?thesis
      unfolding outs using lt by simp
  qed
  have laps: "mPlaybackPosition s' = ?nf"
    if "1 \<le> k \<and> ?p = 0 \<and> ?T = k * ?nf" for k
  proof -
    have "0 < k * ?nf" using that assms(6) by simp
    then have "mPlaybackPosition s' = (k * ?nf - 1) mod ?nf + 1"
      using pos that by simp
    then show ?thesis
      using cursor_after_whole_laps [OF assms(6), of k] that by simp
  qed
  have "execAll decay cfg (callbacks rs) s = Some (s', outs)
     \<and> outs = map ?F [0..<nat ?T]
     \<and> mPlaybackPosition s' = (if ?T = 0 then ?p else (?p + ?T - 1) mod ?nf + 1)
     \<and> (\<forall>j. int j + ?nf < ?T \<longrightarrow> outs ! (j + nat ?nf) = outs ! j)
     \<and> (\<forall>k. 1 \<le> k \<and> ?p = 0 \<and> ?T = k * ?nf \<longrightarrow> mPlaybackPosition s' = ?nf)"
    using run outs pos period laps by (intro conjI allI impI)
  then show ?thesis
    by (intro exI [of _ s'] exI [of _ outs])
qed

theorem C3_looping_cursor_witness:
  "clipOk twoFrameClip \<and> detectorsOk twoFrameClip
   \<and> requestsOk [(silentInput, 0, 5), (silentInput, 0, 1)]
   \<and> 0 \<le> outputChannelCount stereo48k
   \<and> mLoopPlayback twoFrameClip \<and> 0 < mPlaybackNumFrames twoFrameClip
   \<and> (\<exists>s' outs.
        execAll 1 stereo48k (callbacks [(silentInput, 0, 5), (silentInput, 0, 1)]) twoFrameClip
          = Some (s', outs)
        \<and> length outs = 6
        \<and> outs ! 2 = outs ! 0
        \<and> mPlaybackPosition s' = 2)"
proof -
  let ?rs = "[(silentInput, 0, 5), (silentInput, 0, 1)]"
  have h3: "requestsOk ?rs" by simp
  have h4: "0 \<le> outputChannelCount stereo48k" by (simp add: stereo48k_def)
  have h5: "mLoopPlayback twoFrameClip"
    by (simp add: twoFrameClip_def FullDuplexHfpLoopback_new_def)
  have h6: "0 < mPlaybackNumFrames twoFrameClip"
    by (simp add: twoFrameClip_def)
  have f: "mPlaybackNumFrames twoFrameClip = 2" "mPlaybackPosition twoFrameClip = 0"
    by (simp_all add: twoFrameClip_def FullDuplexHfpLoopback_new_def)
  obtain s' outs where
    a: "execAll 1 stereo48k (callbacks ?rs) twoFrameClip = Some (s', outs)"
    and b: "outs = map (\<lambda>j. specFrame (mPlaybackBuffer twoFrameClip)
                        (mPlaybackChannelCount twoFrameClip) (outputChannelCount stereo48k)
                        ((mPlaybackPosition twoFrameClip + int j) mod mPlaybackNumFrames twoFrameClip))
                [0..<nat (outputTotal ?rs)]"
    and c: "\<forall>j. int j + mPlaybackNumFrames twoFrameClip < outputTotal ?rs \<longrightarrow>
           outs ! (j + nat (mPlaybackNumFrames twoFrameClip)) = outs ! j"
    and d: "\<forall>k. 1 \<le> k \<and> mPlaybackPosition twoFrameClip = 0
              \<and> outputTotal ?rs = k * mPlaybackNumFrames twoFrameClip \<longrightarrow>
           mPlaybackPosition s' = mPlaybackNumFrames twoFrameClip"
    using C3_looping_cursor [OF twoFrameClip_ok h3 h4 h5 h6, of 1]
    by (elim exE conjE) (rule that)
  have len: "length outs = 6"
    unfolding b by simp
  have "int 0 + mPlaybackNumFrames twoFrameClip < outputTotal ?rs"
    by (simp add: f)
  then have "outs ! (0 + nat (mPlaybackNumFrames twoFrameClip)) = outs ! 0"
    using c by blast
  then have per: "outs ! 2 = outs ! 0"
    by (simp add: f numeral_2_eq_2)
  have "(1::int) \<le> 3 \<and> mPlaybackPosition twoFrameClip = 0
      \<and> outputTotal ?rs = 3 * mPlaybackNumFrames twoFrameClip"
    by (simp add: f)
  then have "mPlaybackPosition s' = mPlaybackNumFrames twoFrameClip"
    using d by blast
  then have pos: "mPlaybackPosition s' = 2"
    by (simp add: f)
  have "execAll 1 stereo48k (callbacks ?rs) twoFrameClip = Some (s', outs)
        \<and> length outs = 6 \<and> outs ! 2 = outs ! 0 \<and> mPlaybackPosition s' = 2"
    using a len per pos by (intro conjI)
  then have "\<exists>s' outs.
        execAll 1 stereo48k (callbacks ?rs) twoFrameClip = Some (s', outs)
        \<and> length outs = 6 \<and> outs ! 2 = outs ! 0 \<and> mPlaybackPosition s' = 2"
    by (intro exI [of _ s'] exI [of _ outs])
  then show ?thesis
    using twoFrameClip_ok h3 h4 h5 h6 by (intro conjI)
qed

theorem C3_cursor_after_one_lap_counterexample:
  "start stereo48k FullDuplexHfpLoopback_new = Some startedSession
   \<and> loadAudioData (Some halfSamples) 2 1 48000 startedSession = Some (0, loadedSession)
   \<and> mLoopPlayback loadedSession
   \<and> onBothStreamsReadyFloat 1 stereo48k silentInput 0 2 loadedSession
       = Some (Continue, afterOneLap, [[1 / 2, 1 / 2], [1 / 2, 1 / 2]])
   \<and> mPlaybackPosition afterOneLap = 2"
proof -
  have load: "loadAudioData (Some halfSamples) 2 1 48000 startedSession = Some (0, loadedSession)"
    by (simp add: loadAudioData_def INT32_MAX_def loadedSession_def startedSession_def
          FullDuplexHfpLoopback_new_def halfSamples_def numeral_eq_Suc upt_rec)
  have loop: "mLoopPlayback loadedSession"
    by (simp add: loadedSession_def startedSession_def FullDuplexHfpLoopback_new_def)
  have k: "(2::int) - 0 = int 2" by simp
  have nf: "0 < mPlaybackNumFrames loadedSession" by (simp add: loadedSession_def)
  have "playbackLoop 2 2 0 loadedSession [] =
      Some (afterOneLap, [[1 / 2, 1 / 2], [1 / 2, 1 / 2]])"
    using playbackLoop_looping [OF loadedSession_ok(1) nf loop k, of 2 "[]"]
    by (simp add: afterOneLap_def loadedSession_def startedSession_def
          FullDuplexHfpLoopback_new_def specFrame_def appendFrames_def write_rec_def
          MultiChannelRecording_new_def numeral_eq_Suc upt_rec)
  then have "processOutput stereo48k 2 loadedSession =
      Some (afterOneLap, [[1 / 2, 1 / 2], [1 / 2, 1 / 2]])"
    by (simp add: processOutput_def stereo48k_def loadedSession_def)
  moreover have "inputLoop 1 (inputChannelCount stereo48k) silentInput 0 0 afterOneLap
      = Some afterOneLap"
    by (simp add: inputLoop.simps)
  ultimately have "onBothStreamsReadyFloat 1 stereo48k silentInput 0 2 loadedSession
       = Some (Continue, afterOneLap, [[1 / 2, 1 / 2], [1 / 2, 1 / 2]])"
    by (simp add: onBothStreamsReadyFloat_def)
  moreover have "mPlaybackPosition afterOneLap = 2"
    by (simp add: afterOneLap_def)
  ultimately show ?thesis
    using start_stereo48k_new load loop by (intro conjI)
qed

subsection \<open>Loading a clip\<close>

text \<open>
  The clip's sample count is an \<^verbatim>\<open>int32_t\<close>: for positive counts whose product is beyond
  \<open>INT32_MAX\<close> the call has no meaning.
\<close>

lemma loadAudioData_overflow:
  "loadAudioData (Some samples) 65536 32768 sampleRate s = None"
  by (simp add: loadAudioData_def INT32_MAX_def)

text \<open>
  C9. With a null pointer, a non-positive frame count or a non-positive channel count
  \<^verbatim>\<open>loadAudioData\<close> returns \<open>-1\<close> and the object is unchanged. With a pointer, positive
  counts and a clip whose sample count \<^verbatim>\<open>numFrames * channelCount\<close> is an \<^verbatim>\<open>int32_t\<close>, it
  returns 0: the buffer is a copy of that many samples, the frame count, channel count
  and sample rate are the arguments, the cursor is 0 and every other member (the
  counters, the loop flag, the recordings, the detectors) is unchanged.
\<close>

theorem C9_loadAudioData:
  "(audioData = None \<or> numFrames \<le> 0 \<or> channelCount \<le> 0 \<longrightarrow>
      loadAudioData audioData numFrames channelCount sampleRate s = Some (- 1, s))
   \<and> (0 < numFrames \<and> 0 < channelCount \<and> numFrames * channelCount \<le> INT32_MAX \<longrightarrow>
      (\<exists>s'. loadAudioData (Some samples) numFrames channelCount sampleRate s = Some (0, s')
         \<and> mPlaybackBuffer s' = map samples [0..<nat (numFrames * channelCount)]
         \<and> int (length (mPlaybackBuffer s')) = numFrames * channelCount
         \<and> mPlaybackNumFrames s' = numFrames
         \<and> mPlaybackChannelCount s' = channelCount
         \<and> mPlaybackSampleRate s' = sampleRate
         \<and> mPlaybackPosition s' = 0
         \<and> mLoopPlayback s' = mLoopPlayback s
         \<and> mPlayedFrameCount s' = mPlayedFrameCount s
         \<and> mRecordedFrameCount s' = mRecordedFrameCount s
         \<and> s' = s\<lparr>mPlaybackBuffer := mPlaybackBuffer s',
                   mPlaybackNumFrames := numFrames,
                   mPlaybackChannelCount := channelCount,
                   mPlaybackSampleRate := sampleRate,
                   mPlaybackPosition := 0\<rparr>))"
proof (intro conjI impI)
  assume "audioData = None \<or> numFrames \<le> 0 \<or> channelCount \<le> 0"
  then show "loadAudioData audioData numFrames channelCount sampleRate s = Some (- 1, s)"
    by (simp add: loadAudioData_def)
next
  assume a: "0 < numFrames \<and> 0 < channelCount \<and> numFrames * channelCount \<le> INT32_MAX"
  let ?s' = "s\<lparr>mPlaybackBuffer := map samples [0..<nat (numFrames * channelCount)],
               mPlaybackNumFrames := numFrames,
               mPlaybackChannelCount := channelCount,
               mPlaybackSampleRate := sampleRate,
               mPlaybackPosition := 0\<rparr>"
  have load: "loadAudioData (Some samples) numFrames channelCount sampleRate s = Some (0, ?s')"
    using a by (intro loadAudioData_valid) simp_all
  have "0 \<le> numFrames * channelCount"
    using a by (intro mult_nonneg_nonneg) simp_all
  then have len: "int (length (mPlaybackBuffer ?s')) = numFrames * channelCount"
    by simp
  show "\<exists>s'. loadAudioData (Some samples) numFrames channelCount sampleRate s = Some (0, s')
         \<and> mPlaybackBuffer s' = map samples [0..<nat (numFrames * channelCount)]
         \<and> int (length (mPlaybackBuffer s')) = numFrames * channelCount
         \<and> mPlaybackNumFrames s' = numFrames
         \<and> mPlaybackChannelCount s' = channelCount
         \<and> mPlaybackSampleRate s' = sampleRate
         \<and> mPlaybackPosition s' = 0
         \<and> mLoopPlayback s' = mLoopPlayback s
         \<and> mPlayedFrameCount s' = mPlayedFrameCount s
         \<and> mRecordedFrameCount s' = mRecordedFrameCount s
         \<and> s' = s\<lparr>mPlaybackBuffer := mPlaybackBuffer s',
                   mPlaybackNumFrames := numFrames,
                   mPlaybackChannelCount := channelCount,
                   mPlaybackSampleRate := sampleRate,
                   mPlaybackPosition := 0\<rparr>"
    using load len by (intro exI [of _ ?s'] conjI) simp_all
qed

theorem C9_loadAudioData_witness:
  "loadAudioData None 2 1 48000 shortClip = Some (- 1, shortClip)
   \<and> loadAudioData (Some halfSamples) 0 1 48000 shortClip = Some (- 1, shortClip)
   \<and> loadAudioData (Some halfSamples) 2 (- 1) 48000 shortClip = Some (- 1, shortClip)
   \<and> (\<exists>s'. loadAudioData (Some halfSamples) 2 1 44100 (shortClip\<lparr>mPlaybackPosition := 3\<rparr>)
                = Some (0, s')
         \<and> mPlaybackBuffer s' = [1 / 2, 1 / 2]
         \<and> mPlaybackNumFrames s' = 2
         \<and> mPlaybackSampleRate s' = 44100
         \<and> mPlaybackPosition s' = 0
         \<and> \<not> mLoopPlayback s')"
proof -
  have n1: "loadAudioData None 2 1 48000 shortClip = Some (- 1, shortClip)"
    using C9_loadAudioData [of None 2 1 48000 shortClip] by simp
  have n2: "loadAudioData (Some halfSamples) 0 1 48000 shortClip = Some (- 1, shortClip)"
    using C9_loadAudioData [of "Some halfSamples" 0 1 48000 shortClip] by simp
  have n3: "loadAudioData (Some halfSamples) 2 (- 1) 48000 shortClip = Some (- 1, shortClip)"
    using C9_loadAudioData [of "Some halfSamples" 2 "- 1" 48000 shortClip] by simp
  have h: "(0::int) < 2 \<and> (0::int) < 1 \<and> (2::int) * 1 \<le> INT32_MAX"
    by (simp add: INT32_MAX_def)
  obtain s' where
    a: "loadAudioData (Some halfSamples) 2 1 44100 (shortClip\<lparr>mPlaybackPosition := 3\<rparr>)
          = Some (0, s')"
    and b: "mPlaybackBuffer s' = map halfSamples [0..<nat (2 * 1)]"
    and c: "mPlaybackNumFrames s' = 2" "mPlaybackSampleRate s' = 44100" "mPlaybackPosition s' = 0"
      "mLoopPlayback s' = mLoopPlayback (shortClip\<lparr>mPlaybackPosition := 3\<rparr>)"
    using C9_loadAudioData [of None 2 1 44100 "shortClip\<lparr>mPlaybackPosition := 3\<rparr>" halfSamples,
        THEN conjunct2, THEN mp, OF h]
    by (elim exE conjE) (rule that)
  have b': "mPlaybackBuffer s' = [1 / 2, 1 / 2]"
    using b by (simp add: halfSamples_def numeral_eq_Suc upt_rec)
  have c': "\<not> mLoopPlayback s'"
    using c(4) by (simp add: shortClip_def)
  have "loadAudioData (Some halfSamples) 2 1 44100 (shortClip\<lparr>mPlaybackPosition := 3\<rparr>)
                = Some (0, s')
         \<and> mPlaybackBuffer s' = [1 / 2, 1 / 2]
         \<and> mPlaybackNumFrames s' = 2
         \<and> mPlaybackSampleRate s' = 44100
         \<and> mPlaybackPosition s' = 0
         \<and> \<not> mLoopPlayback s'"
    using a b' c(1-3) c' by (intro conjI)
  then have "\<exists>s'. loadAudioData (Some halfSamples) 2 1 44100 (shortClip\<lparr>mPlaybackPosition := 3\<rparr>)
                = Some (0, s')
         \<and> mPlaybackBuffer s' = [1 / 2, 1 / 2]
         \<and> mPlaybackNumFrames s' = 2
         \<and> mPlaybackSampleRate s' = 44100
         \<and> mPlaybackPosition s' = 0
         \<and> \<not> mLoopPlayback s'"
    by (rule exI)
  then show ?thesis
    using n1 n2 n3 by (intro conjI)
qed

subsection \<open>The end-to-end scenario\<close>

lemma start_ok:
  assumes "0 \<le> inputChannelCount cfg"
  shows "\<exists>s'. start cfg s = Some s'
     \<and> detectorsOk s' \<and> levelsOk s'
     \<and> mNumInputChannels s' = inputChannelCount cfg
     \<and> mPeakDetectors s' \<noteq> None
     \<and> mPlaybackPosition s' = 0 \<and> mPlayedFrameCount s' = 0 \<and> mRecordedFrameCount s' = 0
     \<and> mPlaybackBuffer s' = mPlaybackBuffer s
     \<and> mPlaybackNumFrames s' = mPlaybackNumFrames s
     \<and> mPlaybackChannelCount s' = mPlaybackChannelCount s
     \<and> mLoopPlayback s' = mLoopPlayback s"
  using assms
  by (simp add: start_def detectorsOk_def levelsOk_def PeakDetector_new_def getLevel_def
        list_all_length)

lemma halfSamples_frames:
  assumes "0 < nf"
  shows "map (\<lambda>j. specFrame (map halfSamples [0..<nat nf]) 1 2 ((0 + int j) mod nf)) [0..<k]
     = replicate k [1 / 2, 1 / 2]"
proof -
  have "specFrame (map halfSamples [0..<nat nf]) 1 2 (int j mod nf) = [1 / 2, 1 / 2]" for j
  proof -
    have "0 \<le> int j mod nf" "int j mod nf < nf"
      using assms by simp_all
    then have "nat (int j mod nf) < nat nf"
      by simp
    then have "map halfSamples [0..<nat nf] ! nat (int j mod nf) = 1 / 2"
      by (simp add: halfSamples_def)
    then show ?thesis
      by (simp add: specFrame_mono_to_stereo)
  qed
  then show ?thesis
    by (simp add: map_replicate_const)
qed

text \<open>
  C4. On the session of two channels at 48000 Hz in both directions: \<^verbatim>\<open>start()\<close> returns;
  with looping on, loading the clip of 10 mono frames of value 0.5 returns 0; the callback
  asked for 25 output frames then writes 25 frames \<open>[0.5, 0.5]\<close>, leaves the cursor at 5
  and the played frame count at 25. This holds from any object, for any sample rate of
  the clip and for any input block.
\<close>

theorem C4_end_to_end:
  "\<exists>s1 s2 s3.
     start stereo48k s0 = Some s1
   \<and> loadAudioData (Some halfSamples) 10 1 sampleRate (setLoopPlayback True s1) = Some (0, s2)
   \<and> onBothStreamsReadyFloat decay stereo48k inputData numInputFrames 25 s2
       = Some (Continue, s3, replicate 25 [1 / 2, 1 / 2])
   \<and> mPlaybackPosition s3 = 5
   \<and> getPlayedFrameCount s3 = 25"
proof -
  have ic: "0 \<le> inputChannelCount stereo48k" and oc: "0 \<le> outputChannelCount stereo48k"
    and oc2: "outputChannelCount stereo48k = 2"
    by (simp_all add: stereo48k_def)
  obtain s1 where s1: "start stereo48k s0 = Some s1" "detectorsOk s1" "mPlayedFrameCount s1 = 0"
    using start_ok [OF ic, of s0] by (elim exE conjE) (rule that)
  define s2 where "s2 = setLoopPlayback True s1
      \<lparr>mPlaybackBuffer := map halfSamples [0..<nat (10 * 1)],
       mPlaybackNumFrames := 10,
       mPlaybackChannelCount := 1,
       mPlaybackSampleRate := sampleRate,
       mPlaybackPosition := 0\<rparr>"
  have "(10::int) * 1 \<le> INT32_MAX" by (simp add: INT32_MAX_def)
  then have load: "loadAudioData (Some halfSamples) 10 1 sampleRate (setLoopPlayback True s1)
      = Some (0, s2)"
    unfolding s2_def by (intro loadAudioData_valid) simp_all
  have f: "mPlaybackBuffer s2 = map halfSamples [0..<nat 10]" "mPlaybackNumFrames s2 = 10"
    "mPlaybackChannelCount s2 = 1" "mPlaybackPosition s2 = 0" "mLoopPlayback s2"
    "mPlayedFrameCount s2 = 0"
    using s1(3) by (simp_all add: s2_def setLoopPlayback_def)
  have clip: "clipOk s2"
    by (simp add: clipOk_def f INT32_MAX_def)
  have det: "detectorsOk s2"
    using s1(2) by (simp add: s2_def setLoopPlayback_def detectorsOk_def split: option.splits)
  have n: "(0::int) \<le> 25" by simp
  obtain s3 out where
    run: "onBothStreamsReadyFloat decay stereo48k inputData numInputFrames 25 s2
       = Some (Continue, s3, out)"
    and post: "callbackPost stereo48k decay s2 (int (nat numInputFrames)) 25 s3 out"
    using callback_post_any [OF clip det n oc, of decay inputData numInputFrames]
    by (elim exE conjE) (rule that)
  have c: "copied s2 25 = 25"
    by (simp add: copied_def f)
  have "out = clipFrames s2 2 25"
    using post unfolding callbackPost_def c oc2 by simp
  also have "\<dots> = map (\<lambda>j. specFrame (map halfSamples [0..<nat 10]) 1 2 ((0 + int j) mod 10)) [0..<25]"
    by (simp add: clipFrames_def cursorAt_def f)
  also have "\<dots> = replicate 25 [1 / 2, 1 / 2]"
    by (rule halfSamples_frames) simp
  finally have out: "out = replicate 25 [1 / 2, 1 / 2]" .
  have "mPlaybackPosition s3 = cursorAfter s2 25"
    using post unfolding callbackPost_def c by simp
  then have pos: "mPlaybackPosition s3 = 5"
    by (simp add: cursorAfter_def cursorAt_def f)
  have "mPlayedFrameCount s3 = mPlayedFrameCount s2 + int 25"
    using post unfolding callbackPost_def c by simp
  then have played: "getPlayedFrameCount s3 = 25"
    by (simp add: getPlayedFrameCount_def f)
  have "start stereo48k s0 = Some s1
   \<and> loadAudioData (Some halfSamples) 10 1 sampleRate (setLoopPlayback True s1) = Some (0, s2)
   \<and> onBothStreamsReadyFloat decay stereo48k inputData numInputFrames 25 s2
       = Some (Continue, s3, replicate 25 [1 / 2, 1 / 2])
   \<and> mPlaybackPosition s3 = 5
   \<and> getPlayedFrameCount s3 = 25"
    using s1(1) load run pos played unfolding out by (intro conjI)
  then show ?thesis
    by (intro exI [of _ s1] exI [of _ s2] exI [of _ s3])
qed

theorem C4_end_to_end_witness:
  "\<exists>s1 s2 s3.
     start stereo48k FullDuplexHfpLoopback_new = Some s1
   \<and> loadAudioData (Some halfSamples) 10 1 48000 (setLoopPlayback True s1) = Some (0, s2)
   \<and> onBothStreamsReadyFloat 1 stereo48k silentInput 25 25 s2
       = Some (Continue, s3, replicate 25 [1 / 2, 1 / 2])
   \<and> mPlaybackPosition s3 = 5
   \<and> getPlayedFrameCount s3 = 25"
  by (rule C4_end_to_end)

subsection \<open>Runs of calls\<close>

text \<open>
  Every call inside its domain returns and keeps \<open>sessionOk\<close>, which a new object
  satisfies: \<open>clipOk\<close> and \<open>detectorsOk\<close>, the hypotheses of the theorems on callbacks,
  hold of every object a run of calls leaves.
\<close>

lemma exec_sessionOk:
  assumes "0 \<le> outputChannelCount cfg" "0 \<le> inputChannelCount cfg" "callOk c" "sessionOk cfg s"
  shows "\<exists>s' out. exec decay cfg c s = Some (s', out)
     \<and> sessionOk cfg s'
     \<and> started s' = (started s \<or> c = Start)
     \<and> (\<not> isSetLoopPlayback c \<longrightarrow> mLoopPlayback s' = mLoopPlayback s)
     \<and> (0 \<le> decay \<longrightarrow> levelsOk s \<longrightarrow> levelsOk s')"
proof (cases c)
  case Start
  have clip: "clipOk s" using assms(4) by (simp add: sessionOk_def)
  obtain s' where s': "start cfg s = Some s'" "detectorsOk s'" "levelsOk s'"
      "mNumInputChannels s' = inputChannelCount cfg" "mPeakDetectors s' \<noteq> None"
      "mPlaybackPosition s' = 0"
      "mPlaybackBuffer s' = mPlaybackBuffer s" "mPlaybackNumFrames s' = mPlaybackNumFrames s"
      "mPlaybackChannelCount s' = mPlaybackChannelCount s" "mLoopPlayback s' = mLoopPlayback s"
    using start_ok [OF assms(2), of s] by (elim exE conjE) (rule that)
  have "clipOk s'"
    using clip s'(6-9) by (simp add: clipOk_def)
  then have "exec decay cfg c s = Some (s', [])
     \<and> sessionOk cfg s'
     \<and> started s' = (started s \<or> c = Start)
     \<and> (\<not> isSetLoopPlayback c \<longrightarrow> mLoopPlayback s' = mLoopPlayback s)
     \<and> (0 \<le> decay \<longrightarrow> levelsOk s \<longrightarrow> levelsOk s')"
    using Start s' by (simp add: sessionOk_def started_def)
  then show ?thesis by (intro exI [of _ s'] exI [of _ "[]"])
next
  case (LoadAudioData audioData numFrames channelCount sampleRate)
  show ?thesis
  proof (cases "audioData = None \<or> numFrames \<le> 0 \<or> channelCount \<le> 0")
    case True
    then have "loadAudioData audioData numFrames channelCount sampleRate s = Some (- 1, s)"
      by (simp add: loadAudioData_def)
    then have "exec decay cfg c s = Some (s, [])
       \<and> sessionOk cfg s
       \<and> started s = (started s \<or> c = Start)
       \<and> (\<not> isSetLoopPlayback c \<longrightarrow> mLoopPlayback s = mLoopPlayback s)
       \<and> (0 \<le> decay \<longrightarrow> levelsOk s \<longrightarrow> levelsOk s)"
      using LoadAudioData assms(4) by simp
    then show ?thesis by (intro exI [of _ s] exI [of _ "[]"])
  next
    case False
    then obtain samples where a: "audioData = Some samples" "0 < numFrames" "0 < channelCount"
      by (cases audioData) auto
    have fits: "numFrames * channelCount \<le> INT32_MAX"
      using assms(3) False LoadAudioData by auto
    define s' where "s' = s\<lparr>mPlaybackBuffer := map samples [0..<nat (numFrames * channelCount)],
               mPlaybackNumFrames := numFrames,
               mPlaybackChannelCount := channelCount,
               mPlaybackSampleRate := sampleRate,
               mPlaybackPosition := 0\<rparr>"
    have load: "loadAudioData audioData numFrames channelCount sampleRate s = Some (0, s')"
      unfolding a(1) s'_def by (rule loadAudioData_valid [OF a(2,3) fits])
    have "0 \<le> numFrames * channelCount"
      using a(2,3) by (intro mult_nonneg_nonneg) simp_all
    then have clip: "clipOk s'"
      using a(2,3) fits by (simp add: clipOk_def s'_def)
    have det: "detectorsOk s'" "started s' = started s"
      "started s' \<longrightarrow> mNumInputChannels s' = inputChannelCount cfg"
      "levelsOk s \<longrightarrow> levelsOk s'" "mLoopPlayback s' = mLoopPlayback s"
      using assms(4)
      by (simp_all add: sessionOk_def s'_def detectorsOk_def started_def levelsOk_def
            split: option.splits)
    have "exec decay cfg c s = Some (s', [])
       \<and> sessionOk cfg s'
       \<and> started s' = (started s \<or> c = Start)
       \<and> (\<not> isSetLoopPlayback c \<longrightarrow> mLoopPlayback s' = mLoopPlayback s)
       \<and> (0 \<le> decay \<longrightarrow> levelsOk s \<longrightarrow> levelsOk s')"
      using LoadAudioData load clip det by (simp add: sessionOk_def)
    then show ?thesis by (intro exI [of _ s'] exI [of _ "[]"])
  qed
next
  case (SetLoopPlayback loop)
  let ?s' = "setLoopPlayback loop s"
  have "sessionOk cfg ?s'" "started ?s' = started s" "levelsOk s \<longrightarrow> levelsOk ?s'"
    using assms(4)
    by (simp_all add: sessionOk_def setLoopPlayback_def clipOk_def detectorsOk_def started_def
          levelsOk_def split: option.splits)
  then have "exec decay cfg c s = Some (?s', [])
       \<and> sessionOk cfg ?s'
       \<and> started ?s' = (started s \<or> c = Start)
       \<and> (\<not> isSetLoopPlayback c \<longrightarrow> mLoopPlayback ?s' = mLoopPlayback s)
       \<and> (0 \<le> decay \<longrightarrow> levelsOk s \<longrightarrow> levelsOk ?s')"
    using SetLoopPlayback by simp
  then show ?thesis by (intro exI [of _ ?s'] exI [of _ "[]"])
next
  case (OnBothStreamsReady inputData numInputFrames numOutputFrames)
  have ok: "clipOk s" "detectorsOk s" "started s \<longrightarrow> mNumInputChannels s = inputChannelCount cfg"
    using assms(4) by (simp_all add: sessionOk_def)
  have n: "0 \<le> numOutputFrames"
    using assms(3) OnBothStreamsReady by simp
  obtain s' out where
    run: "onBothStreamsReadyFloat decay cfg inputData numInputFrames numOutputFrames s
       = Some (Continue, s', out)"
    and post: "callbackPost cfg decay s (int (nat numInputFrames)) numOutputFrames s' out"
    using callback_post_any [OF ok(1,2) n assms(1), of decay inputData numInputFrames]
    by (elim exE conjE) (rule that)
  have p: "clipOk s'" "detectorsOk s'" "mNumInputChannels s' = mNumInputChannels s"
    "(mPeakDetectors s' = None) = (mPeakDetectors s = None)" "mLoopPlayback s' = mLoopPlayback s"
    "0 \<le> decay \<longrightarrow> levelsOk s \<longrightarrow> levelsOk s'"
    using post by (simp_all add: callbackPost_def)
  have "exec decay cfg c s = Some (s', out)
       \<and> sessionOk cfg s'
       \<and> started s' = (started s \<or> c = Start)
       \<and> (\<not> isSetLoopPlayback c \<longrightarrow> mLoopPlayback s' = mLoopPlayback s)
       \<and> (0 \<le> decay \<longrightarrow> levelsOk s \<longrightarrow> levelsOk s')"
    using OnBothStreamsReady run p ok(3) by (simp add: sessionOk_def started_def)
  then show ?thesis by (intro exI [of _ s'] exI [of _ out])
qed

lemma execAll_sessionOk:
  assumes "0 \<le> outputChannelCount cfg" "0 \<le> inputChannelCount cfg" "list_all callOk cs"
    "sessionOk cfg s"
  shows "\<exists>s' outs. execAll decay cfg cs s = Some (s', outs)
     \<and> sessionOk cfg s'
     \<and> started s' = (started s \<or> Start \<in> set cs)
     \<and> (\<not> list_ex isSetLoopPlayback cs \<longrightarrow> mLoopPlayback s' = mLoopPlayback s)
     \<and> (0 \<le> decay \<longrightarrow> levelsOk s \<longrightarrow> levelsOk s')"
  using assms(3,4)
proof (induction cs arbitrary: s)
  case Nil
  then have "execAll decay cfg [] s = Some (s, [])
     \<and> sessionOk cfg s
     \<and> started s = (started s \<or> Start \<in> set [])
     \<and> (\<not> list_ex isSetLoopPlayback [] \<longrightarrow> mLoopPlayback s = mLoopPlayback s)
     \<and> (0 \<le> decay \<longrightarrow> levelsOk s \<longrightarrow> levelsOk s)"
    by simp
  then show ?case by (intro exI [of _ s] exI [of _ "[]"])
next
  case (Cons c cs)
  have c: "callOk c" and cs: "list_all callOk cs"
    using Cons.prems(1) by simp_all
  obtain s1 out where first: "exec decay cfg c s = Some (s1, out)" "sessionOk cfg s1"
      "started s1 = (started s \<or> c = Start)"
      "\<not> isSetLoopPlayback c \<longrightarrow> mLoopPlayback s1 = mLoopPlayback s"
      "0 \<le> decay \<longrightarrow> levelsOk s \<longrightarrow> levelsOk s1"
    using exec_sessionOk [OF assms(1,2) c Cons.prems(2), of decay]
    by (elim exE conjE) (rule that)
  obtain s2 outs where rest: "execAll decay cfg cs s1 = Some (s2, outs)" "sessionOk cfg s2"
      "started s2 = (started s1 \<or> Start \<in> set cs)"
      "\<not> list_ex isSetLoopPlayback cs \<longrightarrow> mLoopPlayback s2 = mLoopPlayback s1"
      "0 \<le> decay \<longrightarrow> levelsOk s1 \<longrightarrow> levelsOk s2"
    using Cons.IH [OF cs first(2)] by (elim exE conjE) (rule that)
  have "execAll decay cfg (c # cs) s = Some (s2, out @ outs)
     \<and> sessionOk cfg s2
     \<and> started s2 = (started s \<or> Start \<in> set (c # cs))
     \<and> (\<not> list_ex isSetLoopPlayback (c # cs) \<longrightarrow> mLoopPlayback s2 = mLoopPlayback s)
     \<and> (0 \<le> decay \<longrightarrow> levelsOk s \<longrightarrow> levelsOk s2)"
    using first rest by auto
  then show ?case by (intro exI [of _ s2] exI [of _ "out @ outs"])
qed

lemma new_sessionOk: "sessionOk cfg FullDuplexHfpLoopback_new" "\<not> started FullDuplexHfpLoopback_new"
proof -
  show "\<not> started FullDuplexHfpLoopback_new"
    by (simp add: started_def FullDuplexHfpLoopback_new_def)
  then show "sessionOk cfg FullDuplexHfpLoopback_new"
    using new_ok(1,2) by (simp add: sessionOk_def)
qed

subsection \<open>Peak levels\<close>

text \<open>
  C8. Whatever run of calls a new object has gone through: if \<^verbatim>\<open>start()\<close> is not among
  them, \<^verbatim>\<open>getPeakLevel\<close> returns \<open>-1\<close> for every index; if it is, \<^verbatim>\<open>getPeakLevel(-1)\<close> and
  \<^verbatim>\<open>getPeakLevel(inputChannelCount)\<close> return \<open>-2\<close>, which is not what the new object
  returns, and every index in \<open>[0, inputChannelCount)\<close> returns the level of that
  channel's detector, which is not negative. The levels are those of the detector modelled
  from the spec, with a decay factor that is not negative.
\<close>

theorem C8_getPeakLevel:
  assumes "0 \<le> decay" "0 \<le> outputChannelCount cfg" "0 \<le> inputChannelCount cfg"
    and "list_all callOk calls"
  shows "\<exists>s outs. execAll decay cfg calls FullDuplexHfpLoopback_new = Some (s, outs)
     \<and> (if Start \<in> set calls
        then getPeakLevel s (- 1) = Some (- 2)
           \<and> getPeakLevel s (inputChannelCount cfg) = Some (- 2)
           \<and> getPeakLevel s (- 1) \<noteq> getPeakLevel FullDuplexHfpLoopback_new (- 1)
           \<and> (\<forall>i. 0 \<le> i \<and> i < inputChannelCount cfg \<longrightarrow>
                (\<exists>ds. mPeakDetectors s = Some ds \<and> nat i < length ds
                    \<and> getPeakLevel s i = Some (getLevel (ds ! nat i))
                    \<and> 0 \<le> getLevel (ds ! nat i)))
        else (\<forall>i. getPeakLevel s i = Some (- 1)))"
proof -
  obtain s outs where run: "execAll decay cfg calls FullDuplexHfpLoopback_new = Some (s, outs)"
    and ok: "sessionOk cfg s"
    and st: "started s = (started FullDuplexHfpLoopback_new \<or> Start \<in> set calls)"
    and lv: "0 \<le> decay \<longrightarrow> levelsOk FullDuplexHfpLoopback_new \<longrightarrow> levelsOk s"
    using execAll_sessionOk [OF assms(2,3,4) new_sessionOk(1), of decay]
    by (elim exE conjE) (rule that)
  have levels: "levelsOk s"
    using lv assms(1) new_ok(3) by simp
  have st': "started s = (Start \<in> set calls)"
    using st new_sessionOk(2) by simp
  have new: "getPeakLevel FullDuplexHfpLoopback_new (- 1) = Some (- 1)"
    by (simp add: getPeakLevel_def FullDuplexHfpLoopback_new_def)
  have body: "if Start \<in> set calls
        then getPeakLevel s (- 1) = Some (- 2)
           \<and> getPeakLevel s (inputChannelCount cfg) = Some (- 2)
           \<and> getPeakLevel s (- 1) \<noteq> getPeakLevel FullDuplexHfpLoopback_new (- 1)
           \<and> (\<forall>i. 0 \<le> i \<and> i < inputChannelCount cfg \<longrightarrow>
                (\<exists>ds. mPeakDetectors s = Some ds \<and> nat i < length ds
                    \<and> getPeakLevel s i = Some (getLevel (ds ! nat i))
                    \<and> 0 \<le> getLevel (ds ! nat i)))
        else (\<forall>i. getPeakLevel s i = Some (- 1))"
  proof (cases "Start \<in> set calls")
    case False
    then have "mPeakDetectors s = None"
      using st' by (simp add: started_def)
    then have "\<forall>i. getPeakLevel s i = Some (- 1)"
      by (simp add: getPeakLevel_def)
    then show ?thesis using False by simp
  next
    case True
    then obtain ds where ds: "mPeakDetectors s = Some ds"
      using st' by (auto simp: started_def)
    have num: "mNumInputChannels s = inputChannelCount cfg"
      using ok st' True by (simp add: sessionOk_def)
    have len: "int (length ds) = inputChannelCount cfg"
      using ok ds num by (simp add: sessionOk_def detectorsOk_def)
    have nonneg: "list_all (\<lambda>d. 0 \<le> getLevel d) ds"
      using levels ds by (simp add: levelsOk_def)
    have a: "getPeakLevel s (- 1) = Some (- 2)"
      using ds by (simp add: getPeakLevel_def)
    have b: "getPeakLevel s (inputChannelCount cfg) = Some (- 2)"
      using ds num by (simp add: getPeakLevel_def)
    have c: "getPeakLevel s (- 1) \<noteq> getPeakLevel FullDuplexHfpLoopback_new (- 1)"
      unfolding a new by simp
    have d: "\<exists>ds. mPeakDetectors s = Some ds \<and> nat i < length ds
                    \<and> getPeakLevel s i = Some (getLevel (ds ! nat i))
                    \<and> 0 \<le> getLevel (ds ! nat i)"
      if "0 \<le> i \<and> i < inputChannelCount cfg" for i
    proof -
      have i: "nat i < length ds"
        using that len by arith
      have "getPeakLevel s i = Some (getLevel (ds ! nat i))"
        using that ds num i by (simp add: getPeakLevel_def)
      moreover have "0 \<le> getLevel (ds ! nat i)"
        using nonneg i by (simp add: list_all_length)
      ultimately have "mPeakDetectors s = Some ds \<and> nat i < length ds
                    \<and> getPeakLevel s i = Some (getLevel (ds ! nat i))
                    \<and> 0 \<le> getLevel (ds ! nat i)"
        using ds i by (intro conjI)
      then show ?thesis by (rule exI)
    qed
    show ?thesis
      using True a b c d by simp
  qed
  have "execAll decay cfg calls FullDuplexHfpLoopback_new = Some (s, outs)
     \<and> (if Start \<in> set calls
        then getPeakLevel s (- 1) = Some (- 2)
           \<and> getPeakLevel s (inputChannelCount cfg) = Some (- 2)
           \<and> getPeakLevel s (- 1) \<noteq> getPeakLevel FullDuplexHfpLoopback_new (- 1)
           \<and> (\<forall>i. 0 \<le> i \<and> i < inputChannelCount cfg \<longrightarrow>
                (\<exists>ds. mPeakDetectors s = Some ds \<and> nat i < length ds
                    \<and> getPeakLevel s i = Some (getLevel (ds ! nat i))
                    \<and> 0 \<le> getLevel (ds ! nat i)))
        else (\<forall>i. getPeakLevel s i = Some (- 1)))"
    using run body by (intro conjI)
  then show ?thesis
    by (intro exI [of _ s] exI [of _ outs])
qed

theorem C8_getPeakLevel_witness:
  "(0::real) \<le> 1 / 2 \<and> 0 \<le> outputChannelCount stereo48k \<and> 0 \<le> inputChannelCount stereo48k
   \<and> list_all callOk [Start, OnBothStreamsReady halfSamples 1 1]
   \<and> (\<exists>s outs.
        execAll (1 / 2) stereo48k [Start, OnBothStreamsReady halfSamples 1 1] FullDuplexHfpLoopback_new
          = Some (s, outs)
        \<and> getPeakLevel s (- 1) = Some (- 2)
        \<and> getPeakLevel s 2 = Some (- 2)
        \<and> (\<exists>v. getPeakLevel s 0 = Some v \<and> 0 \<le> v))
   \<and> getPeakLevel FullDuplexHfpLoopback_new 0 = Some (- 1)"
proof -
  let ?calls = "[Start, OnBothStreamsReady halfSamples 1 1]"
  have h1: "(0::real) \<le> 1 / 2" by simp
  have h2: "0 \<le> outputChannelCount stereo48k" and h3: "0 \<le> inputChannelCount stereo48k"
    by (simp_all add: stereo48k_def)
  have h4: "list_all callOk ?calls" by simp
  have ic: "inputChannelCount stereo48k = 2" by (simp add: stereo48k_def)
  obtain s outs where
    run: "execAll (1 / 2) stereo48k ?calls FullDuplexHfpLoopback_new = Some (s, outs)"
    and body: "if Start \<in> set ?calls
        then getPeakLevel s (- 1) = Some (- 2)
           \<and> getPeakLevel s (inputChannelCount stereo48k) = Some (- 2)
           \<and> getPeakLevel s (- 1) \<noteq> getPeakLevel FullDuplexHfpLoopback_new (- 1)
           \<and> (\<forall>i. 0 \<le> i \<and> i < inputChannelCount stereo48k \<longrightarrow>
                (\<exists>ds. mPeakDetectors s = Some ds \<and> nat i < length ds
                    \<and> getPeakLevel s i = Some (getLevel (ds ! nat i))
                    \<and> 0 \<le> getLevel (ds ! nat i)))
        else (\<forall>i. getPeakLevel s i = Some (- 1))"
    using C8_getPeakLevel [OF h1 h2 h3 h4] by (elim exE conjE) (rule that)
  have a: "getPeakLevel s (- 1) = Some (- 2)" and b: "getPeakLevel s 2 = Some (- 2)"
    and d: "\<forall>i. 0 \<le> i \<and> i < 2 \<longrightarrow>
                (\<exists>ds. mPeakDetectors s = Some ds \<and> nat i < length ds
                    \<and> getPeakLevel s i = Some (getLevel (ds ! nat i))
                    \<and> 0 \<le> getLevel (ds ! nat i))"
    using body by (simp_all add: ic)
  have "(0::int) \<le> 0 \<and> (0::int) < 2" by simp
  then obtain ds where "getPeakLevel s 0 = Some (getLevel (ds ! nat 0))" "0 \<le> getLevel (ds ! nat 0)"
    using d by blast
  then have c: "\<exists>v. getPeakLevel s 0 = Some v \<and> 0 \<le> v"
    by (intro exI [of _ "getLevel (ds ! nat 0)"] conjI)
  have "execAll (1 / 2) stereo48k ?calls FullDuplexHfpLoopback_new = Some (s, outs)
        \<and> getPeakLevel s (- 1) = Some (- 2)
        \<and> getPeakLevel s 2 = Some (- 2)
        \<and> (\<exists>v. getPeakLevel s 0 = Some v \<and> 0 \<le> v)"
    using run a b c by (intro conjI)
  then have first: "\<exists>s outs.
        execAll (1 / 2) stereo48k ?calls FullDuplexHfpLoopback_new = Some (s, outs)
        \<and> getPeakLevel s (- 1) = Some (- 2)
        \<and> getPeakLevel s 2 = Some (- 2)
        \<and> (\<exists>v. getPeakLevel s 0 = Some v \<and> 0 \<le> v)"
    by (intro exI [of _ s] exI [of _ outs])
  have h4': "list_all callOk []" by simp
  obtain s0 outs0 where
    run0: "execAll (1 / 2) stereo48k [] FullDuplexHfpLoopback_new = Some (s0, outs0)"
    and body0: "if Start \<in> set []
        then getPeakLevel s0 (- 1) = Some (- 2)
           \<and> getPeakLevel s0 (inputChannelCount stereo48k) = Some (- 2)
           \<and> getPeakLevel s0 (- 1) \<noteq> getPeakLevel FullDuplexHfpLoopback_new (- 1)
           \<and> (\<forall>i. 0 \<le> i \<and> i < inputChannelCount stereo48k \<longrightarrow>
                (\<exists>ds. mPeakDetectors s0 = Some ds \<and> nat i < length ds
                    \<and> getPeakLevel s0 i = Some (getLevel (ds ! nat i))
                    \<and> 0 \<le> getLevel (ds ! nat i)))
        else (\<forall>i. getPeakLevel s0 i = Some (- 1))"
    using C8_getPeakLevel [OF h1 h2 h3 h4'] by (elim exE conjE) (rule that)
  have "s0 = FullDuplexHfpLoopback_new" using run0 by simp
  then have second: "getPeakLevel FullDuplexHfpLoopback_new 0 = Some (- 1)"
    using body0 by simp
  show ?thesis
    using h1 h2 h3 h4 first second by (intro conjI)
qed

subsection \<open>Looping by default\<close>

text \<open>
  C10. A new object that has gone through any run of calls without \<^verbatim>\<open>setLoopPlayback\<close> has
  looping on. If it holds a clip, a callback asked for \<open>n > 0\<close> output frames copies \<open>n\<close>
  frames of the clip, the \<open>j\<close>-th from position \<open>(cursor + j) mod F\<close>, and counts them all
  as played: no frame is silence. With the cursor at the end of the clip, the first frame
  written is frame 0 of the clip.
\<close>

theorem C10_loop_default:
  assumes "0 \<le> outputChannelCount cfg" "0 \<le> inputChannelCount cfg"
    and "list_all callOk calls" "\<not> list_ex isSetLoopPlayback calls"
  shows "\<exists>s outs. execAll decay cfg calls FullDuplexHfpLoopback_new = Some (s, outs)
     \<and> mLoopPlayback s
     \<and> (0 < mPlaybackNumFrames s \<longrightarrow>
          (\<forall>inputData numInputFrames numOutputFrames. 0 < numOutputFrames \<longrightarrow>
             (\<exists>s' out.
                onBothStreamsReadyFloat decay cfg inputData numInputFrames numOutputFrames s
                  = Some (Continue, s', out)
              \<and> out = map (\<lambda>j. specFrame (mPlaybackBuffer s) (mPlaybackChannelCount s)
                                 (outputChannelCount cfg)
                                 ((mPlaybackPosition s + int j) mod mPlaybackNumFrames s))
                         [0..<nat numOutputFrames]
              \<and> mPlayedFrameCount s' = mPlayedFrameCount s + numOutputFrames
              \<and> (mPlaybackPosition s = mPlaybackNumFrames s \<longrightarrow>
                   out ! 0 = specFrame (mPlaybackBuffer s) (mPlaybackChannelCount s)
                               (outputChannelCount cfg) 0))))"
proof -
  obtain s outs where run: "execAll decay cfg calls FullDuplexHfpLoopback_new = Some (s, outs)"
    and ok: "sessionOk cfg s"
    and lp: "\<not> list_ex isSetLoopPlayback calls \<longrightarrow>
        mLoopPlayback s = mLoopPlayback FullDuplexHfpLoopback_new"
    using execAll_sessionOk [OF assms(1,2,3) new_sessionOk(1), of decay]
    by (elim exE conjE) (rule that)
  have loop: "mLoopPlayback s"
    using lp assms(4) by (simp add: FullDuplexHfpLoopback_new_def)
  have clip: "clipOk s" and det: "detectorsOk s"
    using ok by (simp_all add: sessionOk_def)
  have wrap: "\<exists>s' out.
                onBothStreamsReadyFloat decay cfg inputData numInputFrames numOutputFrames s
                  = Some (Continue, s', out)
              \<and> out = map (\<lambda>j. specFrame (mPlaybackBuffer s) (mPlaybackChannelCount s)
                                 (outputChannelCount cfg)
                                 ((mPlaybackPosition s + int j) mod mPlaybackNumFrames s))
                         [0..<nat numOutputFrames]
              \<and> mPlayedFrameCount s' = mPlayedFrameCount s + numOutputFrames
              \<and> (mPlaybackPosition s = mPlaybackNumFrames s \<longrightarrow>
                   out ! 0 = specFrame (mPlaybackBuffer s) (mPlaybackChannelCount s)
                               (outputChannelCount cfg) 0)"
    if nf: "0 < mPlaybackNumFrames s" and n: "0 < numOutputFrames"
    for inputData numInputFrames numOutputFrames
  proof -
    have n0: "0 \<le> numOutputFrames" using n by simp
    obtain s' out where
      cb: "onBothStreamsReadyFloat decay cfg inputData numInputFrames numOutputFrames s
         = Some (Continue, s', out)"
      and post: "callbackPost cfg decay s (int (nat numInputFrames)) numOutputFrames s' out"
      using callback_post_any [OF clip det n0 assms(1), of decay inputData numInputFrames]
      by (elim exE conjE) (rule that)
    have c: "copied s numOutputFrames = nat numOutputFrames"
      by (rule copied_looping [OF loop nf clip])
    have out: "out = map (\<lambda>j. specFrame (mPlaybackBuffer s) (mPlaybackChannelCount s)
                                 (outputChannelCount cfg)
                                 ((mPlaybackPosition s + int j) mod mPlaybackNumFrames s))
                         [0..<nat numOutputFrames]"
      using post loop unfolding callbackPost_def c by (simp add: clipFrames_def cursorAt_def)
    have played: "mPlayedFrameCount s' = mPlayedFrameCount s + numOutputFrames"
      using post n0 unfolding callbackPost_def c by simp
    have first: "out ! 0 = specFrame (mPlaybackBuffer s) (mPlaybackChannelCount s)
                               (outputChannelCount cfg) 0"
      if "mPlaybackPosition s = mPlaybackNumFrames s"
    proof -
      have "0 < nat numOutputFrames" using n by simp
      then show ?thesis
        unfolding out using that by simp
    qed
    have "onBothStreamsReadyFloat decay cfg inputData numInputFrames numOutputFrames s
                  = Some (Continue, s', out)
              \<and> out = map (\<lambda>j. specFrame (mPlaybackBuffer s) (mPlaybackChannelCount s)
                                 (outputChannelCount cfg)
                                 ((mPlaybackPosition s + int j) mod mPlaybackNumFrames s))
                         [0..<nat numOutputFrames]
              \<and> mPlayedFrameCount s' = mPlayedFrameCount s + numOutputFrames
              \<and> (mPlaybackPosition s = mPlaybackNumFrames s \<longrightarrow>
                   out ! 0 = specFrame (mPlaybackBuffer s) (mPlaybackChannelCount s)
                               (outputChannelCount cfg) 0)"
      using cb out played first by (intro conjI impI)
    then show ?thesis
      by (intro exI [of _ s'] exI [of _ out])
  qed
  have "execAll decay cfg calls FullDuplexHfpLoopback_new = Some (s, outs)
     \<and> mLoopPlayback s
     \<and> (0 < mPlaybackNumFrames s \<longrightarrow>
          (\<forall>inputData numInputFrames numOutputFrames. 0 < numOutputFrames \<longrightarrow>
             (\<exists>s' out.
                onBothStreamsReadyFloat decay cfg inputData numInputFrames numOutputFrames s
                  = Some (Continue, s', out)
              \<and> out = map (\<lambda>j. specFrame (mPlaybackBuffer s) (mPlaybackChannelCount s)
                                 (outputChannelCount cfg)
                                 ((mPlaybackPosition s + int j) mod mPlaybackNumFrames s))
                         [0..<nat numOutputFrames]
              \<and> mPlayedFrameCount s' = mPlayedFrameCount s + numOutputFrames
              \<and> (mPlaybackPosition s = mPlaybackNumFrames s \<longrightarrow>
                   out ! 0 = specFrame (mPlaybackBuffer s) (mPlaybackChannelCount s)
                               (outputChannelCount cfg) 0))))"
    using run loop wrap by (intro conjI impI allI)
  then show ?thesis
    by (intro exI [of _ s] exI [of _ outs])
qed

theorem C10_loop_default_witness:
  "0 \<le> outputChannelCount stereo48k \<and> 0 \<le> inputChannelCount stereo48k
   \<and> list_all callOk [LoadAudioData (Some halfSamples) 2 1 48000]
   \<and> \<not> list_ex isSetLoopPlayback [LoadAudioData (Some halfSamples) 2 1 48000]
   \<and> (\<exists>s outs.
        execAll 1 stereo48k [LoadAudioData (Some halfSamples) 2 1 48000] FullDuplexHfpLoopback_new
          = Some (s, outs)
        \<and> mLoopPlayback s
        \<and> (\<exists>s' out.
             onBothStreamsReadyFloat 1 stereo48k silentInput 0 3 s = Some (Continue, s', out)
           \<and> out = [[1 / 2, 1 / 2], [1 / 2, 1 / 2], [1 / 2, 1 / 2]]
           \<and> mPlayedFrameCount s' = 3))"
proof -
  let ?calls = "[LoadAudioData (Some halfSamples) 2 1 48000]"
  have h1: "0 \<le> outputChannelCount stereo48k" and h2: "0 \<le> inputChannelCount stereo48k"
    by (simp_all add: stereo48k_def)
  have h3: "list_all callOk ?calls" by (simp add: INT32_MAX_def)
  have h4: "\<not> list_ex isSetLoopPlayback ?calls" by simp
  obtain s outs where
    run: "execAll 1 stereo48k ?calls FullDuplexHfpLoopback_new = Some (s, outs)"
    and loop: "mLoopPlayback s"
    and wrap: "0 < mPlaybackNumFrames s \<longrightarrow>
          (\<forall>inputData numInputFrames numOutputFrames. 0 < numOutputFrames \<longrightarrow>
             (\<exists>s' out.
                onBothStreamsReadyFloat 1 stereo48k inputData numInputFrames numOutputFrames s
                  = Some (Continue, s', out)
              \<and> out = map (\<lambda>j. specFrame (mPlaybackBuffer s) (mPlaybackChannelCount s)
                                 (outputChannelCount stereo48k)
                                 ((mPlaybackPosition s + int j) mod mPlaybackNumFrames s))
                         [0..<nat numOutputFrames]
              \<and> mPlayedFrameCount s' = mPlayedFrameCount s + numOutputFrames
              \<and> (mPlaybackPosition s = mPlaybackNumFrames s \<longrightarrow>
                   out ! 0 = specFrame (mPlaybackBuffer s) (mPlaybackChannelCount s)
                               (outputChannelCount stereo48k) 0)))"
    using C10_loop_default [OF h1 h2 h3 h4, of 1] by (elim exE conjE) (rule that)
  have s: "s = twoFrameClip"
    using run by (simp add: twoFrameClip_load)
  have f: "mPlaybackBuffer twoFrameClip = map halfSamples [0..<nat 2]"
    "mPlaybackNumFrames twoFrameClip = 2" "mPlaybackChannelCount twoFrameClip = 1"
    "mPlaybackPosition twoFrameClip = 0" "mPlayedFrameCount twoFrameClip = 0"
    "outputChannelCount stereo48k = 2"
    by (simp_all add: twoFrameClip_def FullDuplexHfpLoopback_new_def stereo48k_def halfSamples_def
          numeral_eq_Suc upt_rec)
  have "0 < mPlaybackNumFrames s" "(0::int) < 3"
    by (simp_all add: s f)
  then obtain s' out where
    cb: "onBothStreamsReadyFloat 1 stereo48k silentInput 0 3 s = Some (Continue, s', out)"
    and out: "out = map (\<lambda>j. specFrame (mPlaybackBuffer s) (mPlaybackChannelCount s)
                                 (outputChannelCount stereo48k)
                                 ((mPlaybackPosition s + int j) mod mPlaybackNumFrames s))
                         [0..<nat 3]"
    and played: "mPlayedFrameCount s' = mPlayedFrameCount s + 3"
    using wrap by blast
  have "out = map (\<lambda>j. specFrame (map halfSamples [0..<nat 2]) 1 2 ((0 + int j) mod 2)) [0..<3]"
    unfolding out s f by simp
  also have "\<dots> = replicate 3 [1 / 2, 1 / 2]"
    by (rule halfSamples_frames) simp
  finally have out': "out = [[1 / 2, 1 / 2], [1 / 2, 1 / 2], [1 / 2, 1 / 2]]"
    by (simp add: numeral_eq_Suc)
  have played': "mPlayedFrameCount s' = 3"
    using played by (simp add: s f)
  have "onBothStreamsReadyFloat 1 stereo48k silentInput 0 3 s = Some (Continue, s', out)
           \<and> out = [[1 / 2, 1 / 2], [1 / 2, 1 / 2], [1 / 2, 1 / 2]]
           \<and> mPlayedFrameCount s' = 3"
    using cb out' played' by (intro conjI)
  then have "\<exists>s' out.
             onBothStreamsReadyFloat 1 stereo48k silentInput 0 3 s = Some (Continue, s', out)
           \<and> out = [[1 / 2, 1 / 2], [1 / 2, 1 / 2], [1 / 2, 1 / 2]]
           \<and> mPlayedFrameCount s' = 3"
    by (intro exI [of _ s'] exI [of _ out])
  then have "execAll 1 stereo48k ?calls FullDuplexHfpLoopback_new = Some (s, outs)
        \<and> mLoopPlayback s
        \<and> (\<exists>s' out.
             onBothStreamsReadyFloat 1 stereo48k silentInput 0 3 s = Some (Continue, s', out)
           \<and> out = [[1 / 2, 1 / 2], [1 / 2, 1 / 2], [1 / 2, 1 / 2]]
           \<and> mPlayedFrameCount s' = 3)"
    using run loop by (intro conjI)
  then have "\<exists>s outs.
        execAll 1 stereo48k ?calls FullDuplexHfpLoopback_new = Some (s, outs)
        \<and> mLoopPlayback s
        \<and> (\<exists>s' out.
             onBothStreamsReadyFloat 1 stereo48k silentInput 0 3 s = Some (Continue, s', out)
           \<and> out = [[1 / 2, 1 / 2], [1 / 2, 1 / 2], [1 / 2, 1 / 2]]
           \<and> mPlayedFrameCount s' = 3)"
    by (intro exI [of _ s] exI [of _ outs])
  then show ?thesis
    using h1 h2 h3 h4 by (intro conjI)
qed

end
